theory Spec2Isabelle
  imports Main "HOL-Library.AList" "HOL-Library.Char_ord" "HOL-Library.List_Lexorder"
begin

section \<open>Strings, formatting and Go maps\<close>

text \<open>
  A Go string is a sequence of bytes, modelled as \<^typ>\<open>string\<close> (a list of 8-bit
  characters). \<open>fmt.Sprintf\<close> with \<open>%s\<close> is concatenation and with \<open>%d\<close> the decimal
  rendering \<open>itoa\<close> of the number. The counters of the formatters are Go \<open>int\<close>s that
  only count list elements, so they are modelled as natural numbers.
  A Go \<open>map[string]int\<close> read at a missing key gives 0: it is a total function
  \<^typ>\<open>string \<Rightarrow> nat\<close>, the empty map being the constant 0.
\<close>

definition digit_char :: "nat \<Rightarrow> char" where
  "digit_char d = ''0123456789'' ! d"

function itoa :: "nat \<Rightarrow> string" where
  "itoa n = (if n < 10 then [digit_char n] else itoa (n div 10) @ [digit_char (n mod 10)])"
  by pat_completeness auto
termination
  by (relation "measure (\<lambda>n. n)") auto

declare itoa.simps [simp del]

section \<open>internal/output/output.go: the variable allocator\<close>

record ColorInfo =
  c_Hex :: string
  c_Type :: string
  c_Brightness :: int

record FontInfo =
  f_Name :: string
  f_Type :: string

record cssVar =
  var_name :: string
  var_value :: string

text \<open>The first loop of every allocator: \<open>typeCounts[c.Type]++\<close> over the whole slice.\<close>

fun countColorTypes :: "ColorInfo list \<Rightarrow> (string \<Rightarrow> nat) \<Rightarrow> (string \<Rightarrow> nat)" where
  "countColorTypes [] typeCounts = typeCounts"
| "countColorTypes (c # cs) typeCounts =
     countColorTypes cs (typeCounts(c_Type c := typeCounts (c_Type c) + 1))"

text \<open>
  The second loop of \<open>buildColorVariables\<close>, with the \<open>typeIndex\<close> map passed along; the
  variables are produced in the order in which \<open>append\<close> adds them.
\<close>

fun colorVarsLoop :: "(string \<Rightarrow> nat) \<Rightarrow> ColorInfo list \<Rightarrow> (string \<Rightarrow> nat) \<Rightarrow> cssVar list" where
  "colorVarsLoop typeCounts [] typeIndex = []"
| "colorVarsLoop typeCounts (c # cs) typeIndex =
     (if typeCounts (c_Type c) > 1
      then (let typeIndex' = typeIndex(c_Type c := typeIndex (c_Type c) + 1) in
            \<lparr>var_name = ''--color-'' @ c_Type c @ ''-'' @ itoa (typeIndex' (c_Type c)),
             var_value = c_Hex c\<rparr> # colorVarsLoop typeCounts cs typeIndex')
      else \<lparr>var_name = ''--color-'' @ c_Type c, var_value = c_Hex c\<rparr>
             # colorVarsLoop typeCounts cs typeIndex)"

definition buildColorVariables :: "ColorInfo list \<Rightarrow> cssVar list" where
  "buildColorVariables colors =
     colorVarsLoop (countColorTypes colors (\<lambda>_. 0)) colors (\<lambda>_. 0)"

fun colorVarsWithPrefixLoop ::
  "string \<Rightarrow> (string \<Rightarrow> nat) \<Rightarrow> ColorInfo list \<Rightarrow> (string \<Rightarrow> nat) \<Rightarrow> cssVar list" where
  "colorVarsWithPrefixLoop prefix typeCounts [] typeIndex = []"
| "colorVarsWithPrefixLoop prefix typeCounts (c # cs) typeIndex =
     (if typeCounts (c_Type c) > 1
      then (let typeIndex' = typeIndex(c_Type c := typeIndex (c_Type c) + 1) in
            \<lparr>var_name = ''--'' @ prefix @ ''-color-'' @ c_Type c @ ''-''
                          @ itoa (typeIndex' (c_Type c)),
             var_value = c_Hex c\<rparr> # colorVarsWithPrefixLoop prefix typeCounts cs typeIndex')
      else \<lparr>var_name = ''--'' @ prefix @ ''-color-'' @ c_Type c, var_value = c_Hex c\<rparr>
             # colorVarsWithPrefixLoop prefix typeCounts cs typeIndex)"

definition buildColorVariablesWithPrefix :: "ColorInfo list \<Rightarrow> string \<Rightarrow> cssVar list" where
  "buildColorVariablesWithPrefix colors prefix =
     colorVarsWithPrefixLoop prefix (countColorTypes colors (\<lambda>_. 0)) colors (\<lambda>_. 0)"

text \<open>
  What the claim calls the name of an entry: the base name alone when the type occurs
  once in the whole sequence, the base name with the 1-based rank of the entry among the
  entries of its type otherwise.
\<close>

definition occurrences :: "ColorInfo list \<Rightarrow> string \<Rightarrow> nat" where
  "occurrences colors t = count_list (map c_Type colors) t"

definition allocatedName :: "string \<Rightarrow> ColorInfo list \<Rightarrow> nat \<Rightarrow> string" where
  "allocatedName base colors i =
     (let t = c_Type (colors ! i) in
      if occurrences colors t = 1 then base @ t
      else base @ t @ ''-'' @ itoa (occurrences (take (Suc i) colors) t))"

section \<open>internal/output/output.go: fonts\<close>

text \<open>
  Characters that cannot stand in a string literal: the line feed of \<open>\n\<close>, the single
  quote and the double quote of the format strings.
\<close>

abbreviation nl :: string where "nl \<equiv> [CHR 0x0A]"
abbreviation sq :: string where "sq \<equiv> [CHR 0x27]"
abbreviation dq :: string where "dq \<equiv> [CHR 0x22]"

fun countFontTypes :: "FontInfo list \<Rightarrow> (string \<Rightarrow> nat) \<Rightarrow> (string \<Rightarrow> nat)" where
  "countFontTypes [] typeCounts = typeCounts"
| "countFontTypes (f # fs) typeCounts =
     countFontTypes fs (typeCounts(f_Type f := typeCounts (f_Type f) + 1))"

text \<open>
  The loop of \<open>buildFontVariables\<close>. \<open>seen\<close> is a \<open>map[string]bool\<close>, which reads
  \<open>false\<close> at a missing key; its key is \<open>f.Name + "|" + f.Type\<close>. \<open>typeCounts\<close> was
  filled from the whole slice before this loop starts, duplicates included.
\<close>

fun fontVarsLoop ::
  "(string \<Rightarrow> nat) \<Rightarrow> FontInfo list \<Rightarrow> (string \<Rightarrow> nat) \<Rightarrow> (string \<Rightarrow> bool) \<Rightarrow> cssVar list" where
  "fontVarsLoop typeCounts [] typeIndex seen = []"
| "fontVarsLoop typeCounts (f # fs) typeIndex seen =
     (let key = f_Name f @ ''|'' @ f_Type f in
      if seen key then fontVarsLoop typeCounts fs typeIndex seen
      else (let seen' = seen(key := True);
                val = sq @ f_Name f @ sq @ '', sans-serif'' in
            if typeCounts (f_Type f) > 1
            then (let typeIndex' = typeIndex(f_Type f := typeIndex (f_Type f) + 1) in
                  \<lparr>var_name = ''--font-'' @ f_Type f @ ''-'' @ itoa (typeIndex' (f_Type f)),
                   var_value = val\<rparr> # fontVarsLoop typeCounts fs typeIndex' seen')
            else \<lparr>var_name = ''--font-'' @ f_Type f, var_value = val\<rparr>
                   # fontVarsLoop typeCounts fs typeIndex seen'))"

definition buildFontVariables :: "FontInfo list \<Rightarrow> cssVar list" where
  "buildFontVariables fonts =
     fontVarsLoop (countFontTypes fonts (\<lambda>_. 0)) fonts (\<lambda>_. 0) (\<lambda>_. False)"

fun fontVarsWithPrefixLoop ::
  "string \<Rightarrow> (string \<Rightarrow> nat) \<Rightarrow> FontInfo list \<Rightarrow> (string \<Rightarrow> nat) \<Rightarrow> (string \<Rightarrow> bool)
     \<Rightarrow> cssVar list" where
  "fontVarsWithPrefixLoop prefix typeCounts [] typeIndex seen = []"
| "fontVarsWithPrefixLoop prefix typeCounts (f # fs) typeIndex seen =
     (let key = f_Name f @ ''|'' @ f_Type f in
      if seen key then fontVarsWithPrefixLoop prefix typeCounts fs typeIndex seen
      else (let seen' = seen(key := True);
                val = sq @ f_Name f @ sq @ '', sans-serif'' in
            if typeCounts (f_Type f) > 1
            then (let typeIndex' = typeIndex(f_Type f := typeIndex (f_Type f) + 1) in
                  \<lparr>var_name = ''--'' @ prefix @ ''-font-'' @ f_Type f @ ''-''
                                @ itoa (typeIndex' (f_Type f)),
                   var_value = val\<rparr>
                    # fontVarsWithPrefixLoop prefix typeCounts fs typeIndex' seen')
            else \<lparr>var_name = ''--'' @ prefix @ ''-font-'' @ f_Type f, var_value = val\<rparr>
                   # fontVarsWithPrefixLoop prefix typeCounts fs typeIndex seen'))"

definition buildFontVariablesWithPrefix :: "FontInfo list \<Rightarrow> string \<Rightarrow> cssVar list" where
  "buildFontVariablesWithPrefix fonts prefix =
     fontVarsWithPrefixLoop prefix (countFontTypes fonts (\<lambda>_. 0)) fonts (\<lambda>_. 0) (\<lambda>_. False)"

text \<open>
  \<open>buildTailwindFonts\<close> and \<open>buildTailwindFontsNested\<close> differ in the indentation of the
  entry only (four and six blanks); each is its own loop in the source.
\<close>

fun tailwindFontsLoop ::
  "(string \<Rightarrow> nat) \<Rightarrow> FontInfo list \<Rightarrow> (string \<Rightarrow> nat) \<Rightarrow> (string \<Rightarrow> bool) \<Rightarrow> string list" where
  "tailwindFontsLoop typeCounts [] typeIndex seen = []"
| "tailwindFontsLoop typeCounts (f # fs) typeIndex seen =
     (let key = f_Name f @ ''|'' @ f_Type f in
      if seen key then tailwindFontsLoop typeCounts fs typeIndex seen
      else (let seen' = seen(key := True) in
            if typeCounts (f_Type f) > 1
            then (let typeIndex' = typeIndex(f_Type f := typeIndex (f_Type f) + 1) in
                  (''    '' @ f_Type f @ itoa (typeIndex' (f_Type f)) @ '': ['' @ sq @ dq
                     @ f_Name f @ dq @ sq @ '', '' @ sq @ ''sans-serif'' @ sq @ ''],'' @ nl)
                    # tailwindFontsLoop typeCounts fs typeIndex' seen')
            else (''    '' @ f_Type f @ '': ['' @ sq @ dq
                     @ f_Name f @ dq @ sq @ '', '' @ sq @ ''sans-serif'' @ sq @ ''],'' @ nl)
                   # tailwindFontsLoop typeCounts fs typeIndex seen'))"

definition buildTailwindFonts :: "FontInfo list \<Rightarrow> string list" where
  "buildTailwindFonts fonts =
     tailwindFontsLoop (countFontTypes fonts (\<lambda>_. 0)) fonts (\<lambda>_. 0) (\<lambda>_. False)"

fun tailwindFontsNestedLoop ::
  "(string \<Rightarrow> nat) \<Rightarrow> FontInfo list \<Rightarrow> (string \<Rightarrow> nat) \<Rightarrow> (string \<Rightarrow> bool) \<Rightarrow> string list" where
  "tailwindFontsNestedLoop typeCounts [] typeIndex seen = []"
| "tailwindFontsNestedLoop typeCounts (f # fs) typeIndex seen =
     (let key = f_Name f @ ''|'' @ f_Type f in
      if seen key then tailwindFontsNestedLoop typeCounts fs typeIndex seen
      else (let seen' = seen(key := True) in
            if typeCounts (f_Type f) > 1
            then (let typeIndex' = typeIndex(f_Type f := typeIndex (f_Type f) + 1) in
                  (''      '' @ f_Type f @ itoa (typeIndex' (f_Type f)) @ '': ['' @ sq @ dq
                     @ f_Name f @ dq @ sq @ '', '' @ sq @ ''sans-serif'' @ sq @ ''],'' @ nl)
                    # tailwindFontsNestedLoop typeCounts fs typeIndex' seen')
            else (''      '' @ f_Type f @ '': ['' @ sq @ dq
                     @ f_Name f @ dq @ sq @ '', '' @ sq @ ''sans-serif'' @ sq @ ''],'' @ nl)
                   # tailwindFontsNestedLoop typeCounts fs typeIndex seen'))"

definition buildTailwindFontsNested :: "FontInfo list \<Rightarrow> string list" where
  "buildTailwindFontsNested fonts =
     tailwindFontsNestedLoop (countFontTypes fonts (\<lambda>_. 0)) fonts (\<lambda>_. 0) (\<lambda>_. False)"

section \<open>internal/output/output.go: nested color entries\<close>

text \<open>
  \<open>buildTailwindColors\<close> groups the hex values by type in a \<open>map[string][]string\<close> and
  keeps the types in order of first occurrence. A missing key of that map reads as the
  nil slice, of length 0.
\<close>

fun groupColors ::
  "ColorInfo list \<Rightarrow> (string \<rightharpoonup> string list) \<Rightarrow> string list
     \<Rightarrow> (string \<rightharpoonup> string list) \<times> string list" where
  "groupColors [] typeColors typeOrder = (typeColors, typeOrder)"
| "groupColors (c # cs) typeColors typeOrder =
     (let typeOrder' = (if typeColors (c_Type c) = None then typeOrder @ [c_Type c]
                        else typeOrder);
          old = (case typeColors (c_Type c) of None \<Rightarrow> [] | Some hs \<Rightarrow> hs)
      in groupColors cs (typeColors(c_Type c \<mapsto> old @ [c_Hex c])) typeOrder')"

text \<open>The inner loop \<open>for i, hex := range hexValues\<close>, printing \<open>i+1\<close>.\<close>

fun nestedHexLines :: "string \<Rightarrow> nat \<Rightarrow> string list \<Rightarrow> string" where
  "nestedHexLines indent i [] = ''''"
| "nestedHexLines indent i (hex # hs) =
     indent @ itoa (i + 1) @ '': '' @ sq @ hex @ sq @ '','' @ nl
       @ nestedHexLines indent (i + 1) hs"

definition tailwindColorEntry :: "string \<Rightarrow> string \<Rightarrow> string list \<Rightarrow> string" where
  "tailwindColorEntry indent colorType hexValues =
     (if length hexValues = 1
      then indent @ colorType @ '': '' @ sq @ hexValues ! 0 @ sq @ '','' @ nl
      else indent @ colorType @ '': {'' @ nl
             @ nestedHexLines (indent @ ''  '') 0 hexValues
             @ indent @ ''},'' @ nl)"

definition buildTailwindColors :: "ColorInfo list \<Rightarrow> string list" where
  "buildTailwindColors colors =
     (let (typeColors, typeOrder) = groupColors colors Map.empty [] in
      map (\<lambda>colorType. tailwindColorEntry ''    '' colorType
             (case typeColors colorType of None \<Rightarrow> [] | Some hs \<Rightarrow> hs)) typeOrder)"

definition buildTailwindColorsNested :: "ColorInfo list \<Rightarrow> string list" where
  "buildTailwindColorsNested colors =
     (let (typeColors, typeOrder) = groupColors colors Map.empty [] in
      map (\<lambda>colorType. tailwindColorEntry ''      '' colorType
             (case typeColors colorType of None \<Rightarrow> [] | Some hs \<Rightarrow> hs)) typeOrder)"

section \<open>internal/output/output.go: the emitters\<close>

record QuickResult =
  q_Name :: string
  q_Domain :: string
  q_LogoLight :: string
  q_LogoDark :: string
  q_Favicon :: string
  q_Colors :: "ColorInfo list"
  q_Fonts :: "FontInfo list"

text \<open>\<open>strings.TrimSuffix\<close> and \<open>strings.TrimPrefix\<close>, on bytes.\<close>

definition HasSuffix :: "string \<Rightarrow> string \<Rightarrow> bool" where
  "HasSuffix s suffix \<longleftrightarrow>
     length suffix \<le> length s \<and> drop (length s - length suffix) s = suffix"

definition TrimSuffix :: "string \<Rightarrow> string \<Rightarrow> string" where
  "TrimSuffix s suffix = (if HasSuffix s suffix then take (length s - length suffix) s else s)"

definition HasPrefix :: "string \<Rightarrow> string \<Rightarrow> bool" where
  "HasPrefix s prefix \<longleftrightarrow> take (length prefix) s = prefix"

definition TrimPrefix :: "string \<Rightarrow> string \<Rightarrow> string" where
  "TrimPrefix s prefix = (if HasPrefix s prefix then drop (length prefix) s else s)"

text \<open>\<open>strings.ReplaceAll\<close> where the old and the new string are one byte each.\<close>

definition ReplaceAllChar :: "string \<Rightarrow> char \<Rightarrow> char \<Rightarrow> string" where
  "ReplaceAllChar s old new = map (\<lambda>c. if c = old then new else c) s"

definition sanitizeCSSName :: "string \<Rightarrow> string" where
  "sanitizeCSSName domain =
     (let name = TrimSuffix domain ''.com'';
          name = TrimSuffix name ''.io'';
          name = TrimSuffix name ''.org'';
          name = TrimSuffix name ''.net'';
          name = TrimSuffix name ''.co''
      in ReplaceAllChar name (CHR ''.'') (CHR ''-''))"

definition sanitizeTailwindKey :: "string \<Rightarrow> string" where
  "sanitizeTailwindKey domain =
     (let name = TrimSuffix domain ''.com'';
          name = TrimSuffix name ''.io'';
          name = TrimSuffix name ''.org'';
          name = TrimSuffix name ''.net'';
          name = TrimSuffix name ''.co'';
          name = ReplaceAllChar name (CHR ''.'') (CHR ''_'')
      in ReplaceAllChar name (CHR ''-'') (CHR ''_''))"

text \<open>One line \<open>"  %s: %s;\n"\<close> per variable.\<close>

definition cssLines :: "cssVar list \<Rightarrow> string" where
  "cssLines vars = concat (map (\<lambda>v. ''  '' @ var_name v @ '': '' @ var_value v @ '';'' @ nl) vars)"

definition FormatQuickCSS :: "QuickResult \<Rightarrow> string" where
  "FormatQuickCSS result =
     '':root {'' @ nl
     @ (if length (q_Colors result) > 0
        then ''  /* Colors */'' @ nl @ cssLines (buildColorVariables (q_Colors result))
        else '''')
     @ (if length (q_Fonts result) > 0
        then (if length (q_Colors result) > 0 then nl else '''')
             @ ''  /* Fonts */'' @ nl @ cssLines (buildFontVariables (q_Fonts result))
        else '''')
     @ ''}''"

definition FormatQuickTailwind :: "QuickResult \<Rightarrow> string" where
  "FormatQuickTailwind result =
     ''// Tailwind CSS config for '' @ q_Name result @ nl
     @ ''// Add to your tailwind.config.js theme.extend'' @ nl
     @ ''module.exports = {'' @ nl
     @ (if length (q_Colors result) > 0
        then ''  colors: {'' @ nl @ concat (buildTailwindColors (q_Colors result))
             @ ''  },'' @ nl
        else '''')
     @ (if length (q_Fonts result) > 0
        then ''  fontFamily: {'' @ nl @ concat (buildTailwindFonts (q_Fonts result))
             @ ''  },'' @ nl
        else '''')
     @ ''}''"

text \<open>The loop \<open>for i, result := range results\<close> of \<open>FormatQuickCSSBatch\<close>.\<close>

fun cssBatchLoop :: "nat \<Rightarrow> QuickResult list \<Rightarrow> string" where
  "cssBatchLoop i [] = ''''"
| "cssBatchLoop i (result # rest) =
     (if i > 0 then nl else '''')
     @ (let brandPrefix = sanitizeCSSName (q_Domain result) in
        ''  /* '' @ q_Name result @ '' */'' @ nl
        @ (if length (q_Colors result) > 0
           then cssLines (buildColorVariablesWithPrefix (q_Colors result) brandPrefix)
           else '''')
        @ (if length (q_Fonts result) > 0
           then cssLines (buildFontVariablesWithPrefix (q_Fonts result) brandPrefix)
           else ''''))
     @ cssBatchLoop (i + 1) rest"

definition FormatQuickCSSBatch :: "QuickResult list \<Rightarrow> string" where
  "FormatQuickCSSBatch results =
     (if length results = 0 then '':root {'' @ nl @ ''}''
      else if length results = 1 then FormatQuickCSS (results ! 0)
      else '':root {'' @ nl @ cssBatchLoop 0 results @ ''}'')"

fun tailwindBatchColors :: "QuickResult list \<Rightarrow> string" where
  "tailwindBatchColors [] = ''''"
| "tailwindBatchColors (result # rest) =
     (if length (q_Colors result) = 0 then tailwindBatchColors rest
      else ''    '' @ sanitizeTailwindKey (q_Domain result) @ '': {'' @ nl
           @ concat (buildTailwindColorsNested (q_Colors result))
           @ ''    },'' @ nl
           @ tailwindBatchColors rest)"

fun tailwindBatchFonts :: "QuickResult list \<Rightarrow> string" where
  "tailwindBatchFonts [] = ''''"
| "tailwindBatchFonts (result # rest) =
     (if length (q_Fonts result) = 0 then tailwindBatchFonts rest
      else ''    '' @ sanitizeTailwindKey (q_Domain result) @ '': {'' @ nl
           @ concat (buildTailwindFontsNested (q_Fonts result))
           @ ''    },'' @ nl
           @ tailwindBatchFonts rest)"

definition FormatQuickTailwindBatch :: "QuickResult list \<Rightarrow> string" where
  "FormatQuickTailwindBatch results =
     (if length results = 0 then ''module.exports = {'' @ nl @ ''}''
      else if length results = 1 then FormatQuickTailwind (results ! 0)
      else (let hasColors = list_ex (\<lambda>result. length (q_Colors result) > 0) results;
                hasFonts = list_ex (\<lambda>result. length (q_Fonts result) > 0) results
            in ''// Tailwind CSS config for multiple brands'' @ nl
               @ ''// Add to your tailwind.config.js theme.extend'' @ nl
               @ ''module.exports = {'' @ nl
               @ (if hasColors
                  then ''  colors: {'' @ nl @ tailwindBatchColors results @ ''  },'' @ nl
                  else '''')
               @ (if hasFonts
                  then ''  fontFamily: {'' @ nl @ tailwindBatchFonts results @ ''  },'' @ nl
                  else '''')
               @ ''}''))"

section \<open>The operating system and the libraries\<close>

text \<open>
  A Go \<open>error\<close> is a value: an error of the operating system (operation, path,
  reason), a \<open>fmt.Errorf\<close> with a plain message, or a \<open>fmt.Errorf\<close> that wraps another
  error with \<open>%w\<close>. A function that returns \<open>(T, error)\<close> returns \<open>error + T\<close>; one
  that returns \<open>error\<close> alone returns \<open>error option\<close>, \<open>None\<close> being \<open>nil\<close>.
\<close>

datatype error =
    PathError string string string
  | Errorf string
  | Wrapf string error

text \<open>
  The file system as far as the commands use it: regular files with their content and
  whether the process may read and write them, and the paths at which a new file can be
  created (the parent directory exists and is writable).
\<close>

datatype fnode = File (content: string) (readable: bool) (writable: bool)

record fsys =
  files :: "string \<rightharpoonup> fnode"
  creatable :: "string \<Rightarrow> bool"

definition ReadFile :: "fsys \<Rightarrow> string \<Rightarrow> error + string" where
  "ReadFile fs path =
     (case files fs path of
        None \<Rightarrow> Inl (PathError ''open'' path ''no such file or directory'')
      | Some f \<Rightarrow> if readable f then Inr (content f)
                 else Inl (PathError ''open'' path ''permission denied''))"

text \<open>
  \<open>os.WriteFile\<close> creates the file with the given permissions (here always \<open>0o644\<close>)
  or truncates an existing one, whose permissions stay as they are.
\<close>

definition WriteFile :: "fsys \<Rightarrow> string \<Rightarrow> string \<Rightarrow> error + fsys" where
  "WriteFile fs path data =
     (case files fs path of
        None \<Rightarrow> if creatable fs path
                then Inr (fs\<lparr>files := (files fs)(path \<mapsto> File data True True)\<rparr>)
                else Inl (PathError ''open'' path ''no such file or directory'')
      | Some f \<Rightarrow> if writable f
                 then Inr (fs\<lparr>files := (files fs)(path \<mapsto> File data (readable f) True)\<rparr>)
                 else Inl (PathError ''open'' path ''permission denied''))"

text \<open>
  White space is what \<open>unicode.IsSpace\<close> accepts, in UTF-8: the six ASCII characters
  tab, line feed, vertical tab, form feed, carriage return and blank; U+0085 and
  U+00A0, two bytes each; and U+1680, U+2000 to U+200A, U+2028, U+2029, U+202F, U+205F
  and U+3000, three bytes each. Go decodes a string code point by code point and takes
  a byte that starts no valid encoding as a code point of its own, which is no white
  space. Every encoding listed here starts with a byte that is not a continuation
  byte and goes on with continuation bytes only, so a code point that Go decodes
  never begins inside one of them, nor one of them inside it: the string has white
  space at a position exactly when one of these byte sequences stands there.
\<close>

definition space1 :: "string list" where
  "space1 = [[CHR 0x09], [CHR 0x0A], [CHR 0x0B], [CHR 0x0C], [CHR 0x0D], [CHR 0x20]]"

definition space2 :: "string list" where
  "space2 = [[CHR 0xC2, CHR 0x85], [CHR 0xC2, CHR 0xA0]]"

definition space3 :: "string list" where
  "space3 =
     [[CHR 0xE1, CHR 0x9A, CHR 0x80],
      [CHR 0xE2, CHR 0x80, CHR 0x80], [CHR 0xE2, CHR 0x80, CHR 0x81],
      [CHR 0xE2, CHR 0x80, CHR 0x82], [CHR 0xE2, CHR 0x80, CHR 0x83],
      [CHR 0xE2, CHR 0x80, CHR 0x84], [CHR 0xE2, CHR 0x80, CHR 0x85],
      [CHR 0xE2, CHR 0x80, CHR 0x86], [CHR 0xE2, CHR 0x80, CHR 0x87],
      [CHR 0xE2, CHR 0x80, CHR 0x88], [CHR 0xE2, CHR 0x80, CHR 0x89],
      [CHR 0xE2, CHR 0x80, CHR 0x8A],
      [CHR 0xE2, CHR 0x80, CHR 0xA8], [CHR 0xE2, CHR 0x80, CHR 0xA9],
      [CHR 0xE2, CHR 0x80, CHR 0xAF],
      [CHR 0xE2, CHR 0x81, CHR 0x9F],
      [CHR 0xE3, CHR 0x80, CHR 0x80]]"

text \<open>
  The number of bytes of the white space with which a string starts, and with which it
  ends; 0 when it starts, or ends, with none.
\<close>

definition leadingSpace :: "string \<Rightarrow> nat" where
  "leadingSpace s =
     (if take 1 s \<in> set space1 then 1
      else if take 2 s \<in> set space2 then 2
      else if take 3 s \<in> set space3 then 3
      else 0)"

definition trailingSpace :: "string \<Rightarrow> nat" where
  "trailingSpace s =
     (if drop (length s - 1) s \<in> set space1 then 1
      else if drop (length s - 2) s \<in> set space2 then 2
      else if drop (length s - 3) s \<in> set space3 then 3
      else 0)"

text \<open>\<open>strings.TrimSpace\<close>: the leading white space is cut off, then the trailing.\<close>

function trimLeft :: "string \<Rightarrow> string" where
  "trimLeft s = (if leadingSpace s = 0 then s else trimLeft (drop (leadingSpace s) s))"
  by pat_completeness auto
termination
proof (relation "measure length")
  fix s assume "leadingSpace s \<noteq> 0"
  moreover have "leadingSpace [] = 0"
    by (simp add: leadingSpace_def space1_def space2_def space3_def)
  ultimately have "s \<noteq> []" by auto
  then show "(drop (leadingSpace s) s, s) \<in> measure length"
    using \<open>leadingSpace s \<noteq> 0\<close> by simp
qed simp

function trimRight :: "string \<Rightarrow> string" where
  "trimRight s = (if trailingSpace s = 0 then s else trimRight (take (length s - trailingSpace s) s))"
  by pat_completeness auto
termination
proof (relation "measure length")
  fix s assume "trailingSpace s \<noteq> 0"
  moreover have "trailingSpace [] = 0"
    by (simp add: trailingSpace_def space1_def space2_def space3_def)
  ultimately have "s \<noteq> []" by auto
  then show "(take (length s - trailingSpace s) s, s) \<in> measure length"
    using \<open>trailingSpace s \<noteq> 0\<close> by simp
qed simp

declare trimLeft.simps [simp del] trimRight.simps [simp del]

definition TrimSpace :: "string \<Rightarrow> string" where
  "TrimSpace s = trimRight (trimLeft s)"

text \<open>\<open>strings.Fields\<close>: the maximal runs of bytes between white space.\<close>

function fieldsFrom :: "string \<Rightarrow> string \<Rightarrow> string list" where
  "fieldsFrom cur [] = (if cur = [] then [] else [cur])"
| "fieldsFrom cur (c # cs) =
     (if leadingSpace (c # cs) = 0 then fieldsFrom (cur @ [c]) cs
      else if cur = [] then fieldsFrom [] (drop (leadingSpace (c # cs)) (c # cs))
      else cur # fieldsFrom [] (drop (leadingSpace (c # cs)) (c # cs)))"
  by pat_completeness auto
termination
  by (relation "measure (\<lambda>(cur, s). length s)") auto

definition Fields :: "string \<Rightarrow> string list" where
  "Fields s = fieldsFrom [] s"

text \<open>\<open>strings.Split\<close> at a separator of one byte; the empty string gives one empty part.\<close>

fun splitFrom :: "char \<Rightarrow> string \<Rightarrow> string \<Rightarrow> string list" where
  "splitFrom sep cur [] = [cur]"
| "splitFrom sep cur (c # cs) =
     (if c = sep then cur # splitFrom sep [] cs else splitFrom sep (cur @ [c]) cs)"

definition Split :: "string \<Rightarrow> char \<Rightarrow> string list" where
  "Split s sep = splitFrom sep [] s"

text \<open>
  \<open>hex.EncodeToString\<close>: two digits of \<open>hextable\<close> for every byte, the high half
  first.
\<close>

definition hextable :: string where
  "hextable = ''0123456789abcdef''"

definition EncodeToString :: "string \<Rightarrow> string" where
  "EncodeToString src =
     concat (map (\<lambda>b. [hextable ! (of_char b div 16), hextable ! (of_char b mod 16)]) src)"

text \<open>
  \<open>strings.EqualFold\<close>, which the code calls with the output of \<open>hex.EncodeToString\<close>
  as its first argument: digits and the letters a to f. Under the simple case folding
  of Unicode a digit is equal to itself only and a letter from a to f to itself and to
  its capital, and a byte of the other argument that starts no valid encoding is read
  as U+FFFD, equal to none of them. With such a first argument the comparison is
  therefore the equality of the two byte strings up to the case of the letters A to Z.
\<close>

definition toLower :: "char \<Rightarrow> char" where
  "toLower c =
     (case map_of (zip ''ABCDEFGHIJKLMNOPQRSTUVWXYZ'' ''abcdefghijklmnopqrstuvwxyz'') c of
        Some l \<Rightarrow> l
      | None \<Rightarrow> c)"

definition EqualFold :: "string \<Rightarrow> string \<Rightarrow> bool" where
  "EqualFold s t \<longleftrightarrow> map toLower s = map toLower t"

text \<open>
  The types of the API client that the quick command reads: of a brand its name, its
  domain, its logos, colors and fonts; of a logo its type, its theme and its formats;
  of a format its source URL and its format name. The other fields are never read.
\<close>

record LogoFormat =
  lf_Src :: string
  lf_Format :: string

record Logo =
  l_Type :: string
  l_Theme :: string
  l_Formats :: "LogoFormat list"

record apiColor =
  ac_Hex :: string
  ac_Type :: string
  ac_Brightness :: int

record apiFont =
  af_Name :: string
  af_Type :: string

record Brand =
  b_Name :: string
  b_Domain :: string
  b_Logos :: "Logo list"
  b_Colors :: "apiColor list"
  b_Fonts :: "apiFont list"

datatype Format = FormatText | FormatJSON

datatype ColorMode = ColorAuto | ColorAlways | ColorNever

text \<open>
  What the code takes from the standard library and from the outside world, as
  parameters: the SHA-256 digest of a byte string, as bytes, and the functions of
  \<open>path/filepath\<close>; the path component of a URL as \<open>url.Parse\<close> finds it; the
  outcome of \<open>os.MkdirAll\<close> for a directory, of \<open>http.NewRequest\<close> for a URL and of
  the HTTP client for a request to a URL; the answer of the brand API for an
  identifier; whether \<open>NO_COLOR\<close> is set and standard output is a terminal; and the
  string that \<open>output.FormatQuickBatch\<close> renders (plain text with terminal colors, or
  JSON through \<open>encoding/json\<close>), which is written to standard output as it is; and
  the lower-case mapping of Unicode on a string. A status code is a natural number.
\<close>

record response =
  StatusCode :: nat
  Body :: string
  BodyErr :: "error option"

record env =
  sha256_Sum :: "string \<Rightarrow> string"
  filepath_Base :: "string \<Rightarrow> string"
  filepath_Rel :: "string \<Rightarrow> string \<Rightarrow> error + string"
  filepath_Join :: "string \<Rightarrow> string \<Rightarrow> string"
  filepath_Ext :: "string \<Rightarrow> string"
  url_ParsePath :: "string \<Rightarrow> error + string"
  os_MkdirAll :: "string \<Rightarrow> error option"
  http_NewRequest :: "string \<Rightarrow> error option"
  http_Do :: "string \<Rightarrow> error + response"
  client_GetBrand :: "string \<Rightarrow> error + Brand"
  env_NO_COLOR :: bool
  env_isTerminal :: bool
  output_FormatQuickBatch :: "QuickResult list \<Rightarrow> Format \<Rightarrow> bool \<Rightarrow> string"
  unicode_ToLower :: "string \<Rightarrow> string"

text \<open>
  \<open>strings.ToLower\<close>: a string of ASCII characters is lowered letter by letter; any
  other string goes through \<open>strings.Map\<close> with \<open>unicode.ToLower\<close>, which is taken from
  outside.
\<close>

definition isASCII :: "string \<Rightarrow> bool" where
  "isASCII s \<longleftrightarrow> list_all (\<lambda>c. of_char c < (128::nat)) s"

definition ToLower :: "env \<Rightarrow> string \<Rightarrow> string" where
  "ToLower E s = (if isASCII s then map toLower s else unicode_ToLower E s)"

section \<open>internal/cmd/checksum.go\<close>

text \<open>
  A \<open>map[string]string\<close> is an association list with distinct keys: reading is
  \<^const>\<open>map_of\<close> and the assignment \<open>m[k] = v\<close> is \<^const>\<open>AList.update\<close>. The
  order in which Go ranges over a map is not fixed; the code ranges over one only to
  copy it and to collect its keys, which it sorts.
\<close>

type_synonym gomap = "(string \<times> string) list"

text \<open>
  \<open>computeSHA256\<close> opens the file and hashes what it reads; a file that opens is read
  to its end here, so the second error of the source (a failing read) does not occur.
\<close>

definition computeSHA256 :: "env \<Rightarrow> fsys \<Rightarrow> string \<Rightarrow> error + string" where
  "computeSHA256 E fs path =
     (case ReadFile fs path of
        Inl err \<Rightarrow> Inl (Wrapf ''failed to open file for checksum'' err)
      | Inr data \<Rightarrow> Inr (EncodeToString (sha256_Sum E data)))"

definition verifySHA256 :: "env \<Rightarrow> fsys \<Rightarrow> string \<Rightarrow> string \<Rightarrow> error + bool" where
  "verifySHA256 E fs path expected =
     (case computeSHA256 E fs path of
        Inl err \<Rightarrow> Inl err
      | Inr hexsum \<Rightarrow> Inr (EqualFold hexsum (TrimSpace expected)))"

record checksumEntry =
  e_Path :: string
  e_Sum :: string

text \<open>The loop of \<open>parseSHA256Manifest\<close> over the lines of the file.\<close>

fun parseLines :: "string list \<Rightarrow> gomap \<Rightarrow> gomap" where
  "parseLines [] entries = entries"
| "parseLines (line # rest) entries =
     (let trimmed = TrimSpace line in
      if trimmed = '''' \<or> HasPrefix trimmed ''#'' then parseLines rest entries
      else (let parts = Fields trimmed in
            if length parts < 2 then parseLines rest entries
            else (let hash = parts ! 0;
                      filename = parts ! 1;
                      filename = TrimPrefix filename ''*'';
                      filename = TrimPrefix filename ''./''
                  in if filename \<noteq> '''' then parseLines rest (AList.update filename hash entries)
                     else parseLines rest entries)))"

definition parseSHA256Manifest :: "fsys \<Rightarrow> string \<Rightarrow> error + gomap" where
  "parseSHA256Manifest fs path =
     (case ReadFile fs path of
        Inl err \<Rightarrow> Inl (Wrapf ''failed to read manifest'' err)
      | Inr data \<Rightarrow> Inr (parseLines (Split data (CHR 0x0A)) []))"

text \<open>
  The loop \<open>for _, key := range keys\<close> of \<open>verifySHA256ManifestEntry\<close>: it leaves with
  the first key the manifest has, and with \<open>("", false)\<close> when it has none.
\<close>

fun lookupKeys :: "gomap \<Rightarrow> string list \<Rightarrow> string \<times> bool" where
  "lookupKeys manifest [] = ('''', False)"
| "lookupKeys manifest (key # keys) =
     (case map_of manifest key of
        Some expected \<Rightarrow> (expected, True)
      | None \<Rightarrow> lookupKeys manifest keys)"

definition manifestKeys :: "env \<Rightarrow> string \<Rightarrow> string \<Rightarrow> string list" where
  "manifestKeys E path root =
     (let keys = [filepath_Base E path] in
      if root \<noteq> ''''
      then (case filepath_Rel E root path of
              Inr rel \<Rightarrow> if rel \<noteq> '''' \<and> rel \<noteq> ''.'' then [rel] @ keys else keys
            | Inl err \<Rightarrow> keys)
      else keys)"

definition verifySHA256ManifestEntry ::
  "env \<Rightarrow> fsys \<Rightarrow> string \<Rightarrow> string \<Rightarrow> gomap option \<Rightarrow> error option" where
  "verifySHA256ManifestEntry E fs path root manifest =
     (case manifest of
        None \<Rightarrow> None
      | Some m \<Rightarrow>
          (let keys = manifestKeys E path root;
               (expected, ok) = lookupKeys m keys
           in if \<not> ok then Some (Errorf (''no manifest entry for '' @ filepath_Base E path))
              else (case verifySHA256 E fs path expected of
                      Inl err \<Rightarrow> Some err
                    | Inr okSum \<Rightarrow>
                        if \<not> okSum then Some (Errorf (''expected '' @ expected)) else None)))"

definition buildChecksumEntry :: "env \<Rightarrow> fsys \<Rightarrow> string \<Rightarrow> string \<Rightarrow> error + checksumEntry" where
  "buildChecksumEntry E fs path root =
     (case computeSHA256 E fs path of
        Inl err \<Rightarrow> Inl err
      | Inr hexsum \<Rightarrow>
          (let entryPath = filepath_Base E path;
               entryPath = (if root \<noteq> ''''
                            then (case filepath_Rel E root path of
                                    Inr rel \<Rightarrow> if rel \<noteq> '''' \<and> rel \<noteq> ''.'' then rel
                                               else entryPath
                                  | Inl err \<Rightarrow> entryPath)
                            else entryPath)
           in Inr \<lparr>e_Path = entryPath, e_Sum = hexsum\<rparr>))"

text \<open>The three loops of \<open>writeSHA256Manifest\<close>.\<close>

fun copyExisting :: "gomap \<Rightarrow> gomap \<Rightarrow> gomap" where
  "copyExisting [] merged = merged"
| "copyExisting ((k, v) # existing) merged = copyExisting existing (AList.update k v merged)"

fun mergeEntries :: "checksumEntry list \<Rightarrow> gomap \<Rightarrow> gomap" where
  "mergeEntries [] merged = merged"
| "mergeEntries (entry # entries) merged =
     (if e_Path entry = '''' \<or> e_Sum entry = '''' then mergeEntries entries merged
      else mergeEntries entries (AList.update (e_Path entry) (e_Sum entry) merged))"

definition manifestLine :: "gomap \<Rightarrow> string \<Rightarrow> string" where
  "manifestLine merged name =
     (case map_of merged name of None \<Rightarrow> '''' | Some hexsum \<Rightarrow> hexsum) @ ''  '' @ name @ nl"

definition writeSHA256Manifest ::
  "fsys \<Rightarrow> string \<Rightarrow> checksumEntry list \<Rightarrow> bool \<Rightarrow> error + fsys" where
  "writeSHA256Manifest fs path entries appendExisting =
     (if length entries = 0 then Inl (Errorf ''no downloaded files to write'')
      else (let merged = [];
                merged = (if appendExisting
                          then (case parseSHA256Manifest fs path of
                                  Inr existing \<Rightarrow> copyExisting existing merged
                                | Inl err \<Rightarrow> merged)
                          else merged);
                merged = mergeEntries entries merged;
                paths = sort (map fst merged)
            in WriteFile fs path (concat (map (manifestLine merged) paths))))"

text \<open>A disk without files on which every file can be created.\<close>

definition emptyDisk :: fsys where
  "emptyDisk = \<lparr>files = Map.empty, creatable = (\<lambda>path. True)\<rparr>"

section \<open>The manifest as the specification describes it\<close>

text \<open>
  The manifest that exists at a path, as a map from relative path to digest: empty when
  the file cannot be parsed. The new entries as a map, a later entry winning over an
  earlier one with the same path. The merge: a key of the new entries takes its new
  digest, any other key keeps what the existing manifest has. The text of a manifest:
  one line per key, the keys in ascending order.
\<close>

definition existingManifest :: "fsys \<Rightarrow> string \<Rightarrow> (string \<rightharpoonup> string)" where
  "existingManifest fs path =
     (case parseSHA256Manifest fs path of Inr m \<Rightarrow> map_of m | Inl err \<Rightarrow> Map.empty)"

definition entryMap :: "checksumEntry list \<Rightarrow> (string \<rightharpoonup> string)" where
  "entryMap entries = map_of (rev (map (\<lambda>e. (e_Path e, e_Sum e)) entries))"

definition mergedManifest :: "(string \<rightharpoonup> string) \<Rightarrow> checksumEntry list \<Rightarrow> (string \<rightharpoonup> string)" where
  "mergedManifest existing entries = existing ++ entryMap entries"

definition manifestText :: "(string \<rightharpoonup> string) \<Rightarrow> string" where
  "manifestText M =
     concat (map (\<lambda>p. (case M p of None \<Rightarrow> '''' | Some d \<Rightarrow> d) @ ''  '' @ p @ nl)
                 (sorted_list_of_set (dom M)))"

text \<open>
  An entry is well formed when its path and its digest are not empty; the code skips
  any other entry. A token is a non-empty string with white space at no position:
  what one field of a manifest line can hold.
\<close>

definition wellFormed :: "checksumEntry \<Rightarrow> bool" where
  "wellFormed e \<longleftrightarrow> e_Path e \<noteq> '''' \<and> e_Sum e \<noteq> ''''"

fun noSpace :: "string \<Rightarrow> bool" where
  "noSpace [] = True"
| "noSpace (c # cs) = (leadingSpace (c # cs) = 0 \<and> noSpace cs)"

definition isToken :: "string \<Rightarrow> bool" where
  "isToken s \<longleftrightarrow> s \<noteq> '''' \<and> noSpace s"

definition roundTrips :: "checksumEntry \<Rightarrow> bool" where
  "roundTrips e \<longleftrightarrow>
     isToken (e_Path e) \<and> isToken (e_Sum e) \<and> \<not> HasPrefix (e_Sum e) ''#'' \<and>
     \<not> HasPrefix (e_Path e) ''*'' \<and> \<not> HasPrefix (e_Path e) ''./''"

text \<open>
  What the parser makes of a line: the key under which it files the name of the line,
  and what holds of every pair of key and digest that it returns. While a field is
  read, no white space starts inside what has been read of it.
\<close>

definition manifestKey :: "string \<Rightarrow> string" where
  "manifestKey name = TrimPrefix (TrimPrefix name ''*'') ''./''"

definition parsedPair :: "string \<Rightarrow> string \<Rightarrow> bool" where
  "parsedPair k v \<longleftrightarrow> isToken k \<and> isToken v \<and> \<not> HasPrefix v ''#''"

definition clean :: "string \<Rightarrow> string \<Rightarrow> bool" where
  "clean cur s \<longleftrightarrow> (\<forall>i < length cur. leadingSpace (drop i cur @ s) = 0)"

text \<open>What the code has in \<open>merged\<close> before it sorts the keys.\<close>

definition mergedList :: "fsys \<Rightarrow> string \<Rightarrow> checksumEntry list \<Rightarrow> bool \<Rightarrow> gomap" where
  "mergedList fs path entries appendExisting =
     mergeEntries entries
       (if appendExisting
        then (case parseSHA256Manifest fs path of
                Inr existing \<Rightarrow> copyExisting existing []
              | Inl err \<Rightarrow> [])
        else [])"

text \<open>Whether \<open>os.WriteFile\<close> succeeds at a path.\<close>

definition canWrite :: "fsys \<Rightarrow> string \<Rightarrow> bool" where
  "canWrite fs path = (case files fs path of None \<Rightarrow> creatable fs path | Some f \<Rightarrow> writable f)"

text \<open>A disk with one file, for the examples.\<close>

definition diskWith :: "string \<Rightarrow> fnode \<Rightarrow> fsys" where
  "diskWith path f = \<lparr>files = [path \<mapsto> f], creatable = (\<lambda>p. True)\<rparr>"

text \<open>One line of a manifest without its line feed: the digest, two blanks, the path.\<close>

definition entryLine :: "string \<Rightarrow> string \<Rightarrow> string" where
  "entryLine h p = h @ ''  '' @ p"

text \<open>
  Whether the file at a path can be read once \<open>os.WriteFile\<close> has written it: a new
  file is created readable, an existing one keeps its permissions.
\<close>

definition readableAfterWrite :: "fsys \<Rightarrow> string \<Rightarrow> bool" where
  "readableAfterWrite fs path = (case files fs path of None \<Rightarrow> True | Some f \<Rightarrow> readable f)"

text \<open>
  The lookup of \<open>verifySHA256ManifestEntry\<close> as the specification describes it: the
  path relative to the root first, when the root is not empty and the relative path
  exists and is neither empty nor \<open>.\<close>, then the base name.
\<close>

definition relKey :: "env \<Rightarrow> string \<Rightarrow> string \<Rightarrow> string option" where
  "relKey E path root =
     (if root = '''' then None
      else (case filepath_Rel E root path of
              Inl err \<Rightarrow> None
            | Inr rel \<Rightarrow> if rel = '''' \<or> rel = ''.'' then None else Some rel))"

definition manifestLookup :: "env \<Rightarrow> string \<Rightarrow> string \<Rightarrow> gomap \<Rightarrow> string option" where
  "manifestLookup E path root m =
     (case relKey E path root of
        None \<Rightarrow> map_of m (filepath_Base E path)
      | Some rel \<Rightarrow> (case map_of m rel of
                       Some expected \<Rightarrow> Some expected
                     | None \<Rightarrow> map_of m (filepath_Base E path)))"

section \<open>internal/cmd/quick.go\<close>

text \<open>
  The flags of the command are package-level variables in the source; here they are one
  record that every function gets. \<open>outputFormat\<close> and \<open>colorMode\<close> are the two global
  flags of the root command.
\<close>

record flags =
  downloadDir :: string
  cssOutput :: bool
  tailwindOutput :: bool
  quickSHA256 :: bool
  quickSHA256Manifest :: string
  quickSHA256ManifestOut :: string
  quickSHA256ManifestAppend :: bool
  quickSHA256ManifestVerify :: bool
  outputFormat :: string
  colorMode :: string

text \<open>
  What the command does to the outside world, in the order in which it does it: a
  request to the brand API, an HTTP request for an asset, the creation of a directory,
  a write to standard output and a write to the diagnostic stream. The state of a run
  is the file system and the events so far.
\<close>

datatype event =
    GetBrand string
  | HTTPGet string
  | MkdirAll string
  | Stdout string
  | Stderr string

record world =
  w_fs :: fsys
  w_trace :: "event list"

definition emit :: "event \<Rightarrow> world \<Rightarrow> world" where
  "emit ev w = w\<lparr>w_trace := w_trace w @ [ev]\<rparr>"

text \<open>The text of an error, as \<open>%v\<close> prints it.\<close>

fun errorString :: "error \<Rightarrow> string" where
  "errorString (PathError op path reason) = op @ '' '' @ path @ '': '' @ reason"
| "errorString (Errorf msg) = msg"
| "errorString (Wrapf msg err) = msg @ '': '' @ errorString err"

text \<open>\<open>findLogos\<close>: the inner loop over the formats of one logo, and the loop over the logos.\<close>

fun findLogosFormats ::
  "Logo \<Rightarrow> LogoFormat list \<Rightarrow> string \<times> string \<times> string \<Rightarrow> string \<times> string \<times> string" where
  "findLogosFormats logo [] (logoLight, logoDark, favicon) = (logoLight, logoDark, favicon)"
| "findLogosFormats logo (f # fs) (logoLight, logoDark, favicon) =
     (let favicon = (if l_Type logo = ''icon'' \<and> favicon = '''' then lf_Src f else favicon) in
      if lf_Format f \<noteq> ''svg'' \<or> l_Type logo \<noteq> ''logo''
      then findLogosFormats logo fs (logoLight, logoDark, favicon)
      else (let logoLight = (if l_Theme logo = ''light'' \<and> logoLight = '''' then lf_Src f
                             else logoLight);
                logoDark = (if l_Theme logo = ''dark'' \<and> logoDark = '''' then lf_Src f
                            else logoDark)
            in findLogosFormats logo fs (logoLight, logoDark, favicon)))"

fun findLogosLoop :: "Logo list \<Rightarrow> string \<times> string \<times> string \<Rightarrow> string \<times> string \<times> string" where
  "findLogosLoop [] acc = acc"
| "findLogosLoop (logo # logos) acc = findLogosLoop logos (findLogosFormats logo (l_Formats logo) acc)"

definition findLogos :: "Logo list \<Rightarrow> string \<times> string \<times> string" where
  "findLogos logos = findLogosLoop logos ('''', '''', '''')"

definition convertBrandToQuickResult :: "Brand \<Rightarrow> QuickResult" where
  "convertBrandToQuickResult brand =
     (let (logoLight, logoDark, favicon) = findLogos (b_Logos brand) in
      \<lparr>q_Name = b_Name brand, q_Domain = b_Domain brand,
       q_LogoLight = logoLight, q_LogoDark = logoDark, q_Favicon = favicon,
       q_Colors = map (\<lambda>c. \<lparr>c_Hex = ac_Hex c, c_Type = ac_Type c,
                              c_Brightness = ac_Brightness c\<rparr>) (b_Colors brand),
       q_Fonts = map (\<lambda>f. \<lparr>f_Name = af_Name f, f_Type = af_Type f\<rparr>) (b_Fonts brand)\<rparr>)"

text \<open>\<open>resolveOutput\<close> with \<open>output.ParseFormat\<close>, \<open>output.ParseColorMode\<close> and
  \<open>output.ResolveColorMode\<close>.\<close>

definition ParseFormat :: "env \<Rightarrow> string \<Rightarrow> error + Format" where
  "ParseFormat E s =
     (if ToLower E s = ''text'' then Inr FormatText
      else if ToLower E s = ''json'' then Inr FormatJSON
      else Inl (Errorf (''invalid format: '' @ s @ '' (valid: text, json)'')))"

definition ParseColorMode :: "env \<Rightarrow> string \<Rightarrow> error + ColorMode" where
  "ParseColorMode E s =
     (if ToLower E s = ''auto'' then Inr ColorAuto
      else if ToLower E s = ''always'' then Inr ColorAlways
      else if ToLower E s = ''never'' then Inr ColorNever
      else Inl (Errorf (''invalid color mode: '' @ s @ '' (valid: auto, always, never)'')))"

definition ResolveColorMode :: "ColorMode \<Rightarrow> Format \<Rightarrow> bool \<Rightarrow> bool \<Rightarrow> bool" where
  "ResolveColorMode mode format noColor isTTY =
     (if format = FormatJSON \<or> noColor then False
      else (case mode of ColorAlways \<Rightarrow> True | ColorNever \<Rightarrow> False | ColorAuto \<Rightarrow> isTTY))"

definition resolveOutput :: "env \<Rightarrow> flags \<Rightarrow> error + Format \<times> bool" where
  "resolveOutput E F =
     (let formatInput = (if outputFormat F = '''' then ''text'' else outputFormat F) in
      case ParseFormat E formatInput of
        Inl err \<Rightarrow> Inl err
      | Inr format \<Rightarrow>
          (let modeInput = (if colorMode F = '''' then ''auto'' else colorMode F) in
           case ParseColorMode E modeInput of
             Inl err \<Rightarrow> Inl err
           | Inr mode \<Rightarrow>
               Inr (format, ResolveColorMode mode format (env_NO_COLOR E) (env_isTerminal E))))"

definition sanitizeDirName :: "string \<Rightarrow> string" where
  "sanitizeDirName domain =
     (let name = TrimSuffix domain ''.com'';
          name = TrimSuffix name ''.io'';
          name = TrimSuffix name ''.org'';
          name = TrimSuffix name ''.net'';
          name = TrimSuffix name ''.co''
      in ReplaceAllChar name (CHR ''.'') (CHR ''-''))"

definition getExtensionFromURL :: "env \<Rightarrow> string \<Rightarrow> string" where
  "getExtensionFromURL E rawURL =
     (case url_ParsePath E rawURL of
        Inl err \<Rightarrow> ''''
      | Inr path \<Rightarrow> (let ext = filepath_Ext E path in
                     if ext = '''' then '''' else ToLower E ext))"

text \<open>
  \<open>downloadFile\<close>: the request is built, sent, and the body of a response with status
  200 is copied into the file that \<open>os.Create\<close> creates or truncates. A copy that fails
  leaves the file with what was read.
\<close>

definition downloadFile :: "env \<Rightarrow> world \<Rightarrow> string \<Rightarrow> string \<Rightarrow> error option \<times> world" where
  "downloadFile E w fileURL destPath =
     (case http_NewRequest E fileURL of
        Some err \<Rightarrow> (Some err, w)
      | None \<Rightarrow>
          (let w = emit (HTTPGet fileURL) w in
           case http_Do E fileURL of
             Inl err \<Rightarrow> (Some err, w)
           | Inr resp \<Rightarrow>
               if StatusCode resp \<noteq> 200
               then (Some (Errorf (''HTTP '' @ itoa (StatusCode resp))), w)
               else (case WriteFile (w_fs w) destPath (Body resp) of
                       Inl err \<Rightarrow> (Some err, w)
                     | Inr fs' \<Rightarrow> (BodyErr resp, w\<lparr>w_fs := fs'\<rparr>))))"

definition writeSHA256File :: "env \<Rightarrow> fsys \<Rightarrow> string \<Rightarrow> error + fsys" where
  "writeSHA256File E fs path =
     (case computeSHA256 E fs path of
        Inl err \<Rightarrow> Inl err
      | Inr hexsum \<Rightarrow>
          WriteFile fs (path @ ''.sha256'') (hexsum @ ''  '' @ filepath_Base E path @ nl))"

text \<open>
  The body of the loop \<open>for _, d := range downloads\<close> of \<open>downloadAssetsToDir\<close>, for
  a download that succeeded, is three blocks: the sidecar checksum file under
  \<open>--sha256\<close>, the verification against a loaded manifest, which reports a failure and
  hands the error on, and the entry for the manifest to be written. \<open>manifestEntries\<close>
  is a pointer to a slice; \<open>None\<close> is the nil pointer.
\<close>

definition sidecarBlock :: "env \<Rightarrow> flags \<Rightarrow> string \<Rightarrow> string \<Rightarrow> world \<Rightarrow> world" where
  "sidecarBlock E F filename destPath w =
     (if quickSHA256 F
      then (case writeSHA256File E (w_fs w) destPath of
              Inl err \<Rightarrow>
                emit (Stderr (''Error: failed to write checksum for '' @ filename
                                @ '': '' @ errorString err @ nl)) w
            | Inr fs' \<Rightarrow> w\<lparr>w_fs := fs'\<rparr>)
      else w)"

definition verifyBlock ::
  "env \<Rightarrow> flags \<Rightarrow> gomap option \<Rightarrow> string \<Rightarrow> string \<Rightarrow> world \<Rightarrow> error option \<times> world" where
  "verifyBlock E F manifest filename destPath w =
     (if manifest \<noteq> None
      then (case verifySHA256ManifestEntry E (w_fs w) destPath (downloadDir F) manifest of
              Some err \<Rightarrow>
                (Some err,
                 emit (Stderr (''Error: checksum verification failed for '' @ filename
                                 @ '': '' @ errorString err @ nl)) w)
            | None \<Rightarrow> (None, w))
      else (None, w))"

definition entryBlock ::
  "env \<Rightarrow> flags \<Rightarrow> string \<Rightarrow> string \<Rightarrow> world \<times> checksumEntry list option
     \<Rightarrow> world \<times> checksumEntry list option" where
  "entryBlock E F filename destPath st =
     (let (w, manifestEntries) = st in
      case manifestEntries of
        None \<Rightarrow> (w, manifestEntries)
      | Some entries \<Rightarrow>
          (case buildChecksumEntry E (w_fs w) destPath (downloadDir F) of
             Inr entry \<Rightarrow> (w, Some (entries @ [entry]))
           | Inl err \<Rightarrow>
               (emit (Stderr (''Error: failed to compute checksum for '' @ filename
                                @ '': '' @ errorString err @ nl)) w,
                manifestEntries)))"

text \<open>
  The loop body. It returns an error only where the source returns from inside the
  loop: a failed verification with \<open>--sha256-manifest-verify\<close>.
\<close>

definition downloadOne ::
  "env \<Rightarrow> flags \<Rightarrow> string \<Rightarrow> gomap option \<Rightarrow> string \<times> string
     \<Rightarrow> world \<times> checksumEntry list option \<Rightarrow> error option \<times> world \<times> checksumEntry list option" where
  "downloadOne E F targetDir manifest d st =
     (let (url, filename) = d;
          (w, manifestEntries) = st;
          destPath = filepath_Join E targetDir filename in
      case downloadFile E w url destPath of
        (Some err, w) \<Rightarrow>
          (None,
           emit (Stderr (''Error: failed to download '' @ filename @ '': '' @ errorString err @ nl)) w,
           manifestEntries)
      | (None, w) \<Rightarrow>
          (case verifyBlock E F manifest filename destPath
                  (sidecarBlock E F filename destPath
                     (emit (Stderr (''Downloaded: '' @ destPath @ nl)) w)) of
             (verr, w) \<Rightarrow>
               if verr \<noteq> None \<and> quickSHA256ManifestVerify F then (verr, w, manifestEntries)
               else (case entryBlock E F filename destPath (w, manifestEntries) of
                       (w, manifestEntries) \<Rightarrow> (None, w, manifestEntries))))"

fun downloadsLoop ::
  "env \<Rightarrow> flags \<Rightarrow> string \<Rightarrow> gomap option \<Rightarrow> (string \<times> string) list
     \<Rightarrow> world \<times> checksumEntry list option \<Rightarrow> error option \<times> world \<times> checksumEntry list option" where
  "downloadsLoop E F targetDir manifest [] (w, manifestEntries) = (None, w, manifestEntries)"
| "downloadsLoop E F targetDir manifest (d # downloads) (w, manifestEntries) =
     (case downloadOne E F targetDir manifest d (w, manifestEntries) of
        (Some err, w, manifestEntries) \<Rightarrow> (Some err, w, manifestEntries)
      | (None, w, manifestEntries) \<Rightarrow>
          downloadsLoop E F targetDir manifest downloads (w, manifestEntries))"

text \<open>The list \<open>downloads\<close>: the three asset slots that have a URL, with their file names.\<close>

definition assetDownloads :: "env \<Rightarrow> QuickResult \<Rightarrow> (string \<times> string) list" where
  "assetDownloads E result =
     (if q_LogoLight result \<noteq> '''' then [(q_LogoLight result, ''logo-light.svg'')] else [])
     @ (if q_LogoDark result \<noteq> '''' then [(q_LogoDark result, ''logo-dark.svg'')] else [])
     @ (if q_Favicon result \<noteq> ''''
        then [(q_Favicon result, ''favicon'' @ getExtensionFromURL E (q_Favicon result))]
        else [])"

definition downloadAssetsToDir ::
  "env \<Rightarrow> flags \<Rightarrow> QuickResult \<Rightarrow> string \<Rightarrow> gomap option
     \<Rightarrow> world \<times> checksumEntry list option \<Rightarrow> error option \<times> world \<times> checksumEntry list option" where
  "downloadAssetsToDir E F result targetDir manifest st =
     (let (w, manifestEntries) = st;
          w = emit (MkdirAll targetDir) w in
      case os_MkdirAll E targetDir of
        Some err \<Rightarrow>
          (Some err,
           emit (Stderr (''Error: failed to create directory '' @ targetDir @ '': ''
                           @ errorString err @ nl)) w,
           manifestEntries)
      | None \<Rightarrow>
          downloadsLoop E F targetDir manifest (assetDownloads E result) (w, manifestEntries))"

text \<open>
  The loop of \<open>downloadAssetsBatch\<close>; \<open>multi\<close> is \<open>len(results) > 1\<close>, taken over the
  whole slice.
\<close>

definition targetDirOf :: "env \<Rightarrow> flags \<Rightarrow> bool \<Rightarrow> QuickResult \<Rightarrow> string" where
  "targetDirOf E F multi result =
     (if multi then filepath_Join E (downloadDir F) (sanitizeDirName (q_Domain result))
      else downloadDir F)"

fun batchLoop ::
  "env \<Rightarrow> flags \<Rightarrow> bool \<Rightarrow> gomap option \<Rightarrow> QuickResult list
     \<Rightarrow> world \<times> checksumEntry list option \<Rightarrow> error option \<times> world \<times> checksumEntry list option" where
  "batchLoop E F multi manifest [] (w, manifestEntries) = (None, w, manifestEntries)"
| "batchLoop E F multi manifest (result # results) (w, manifestEntries) =
     (case downloadAssetsToDir E F result (targetDirOf E F multi result) manifest
             (w, manifestEntries) of
        (Some err, w, manifestEntries) \<Rightarrow> (Some err, w, manifestEntries)
      | (None, w, manifestEntries) \<Rightarrow> batchLoop E F multi manifest results (w, manifestEntries))"

definition downloadAssetsBatch ::
  "env \<Rightarrow> flags \<Rightarrow> QuickResult list \<Rightarrow> gomap option
     \<Rightarrow> world \<times> checksumEntry list option \<Rightarrow> error option \<times> world \<times> checksumEntry list option" where
  "downloadAssetsBatch E F results manifest st =
     batchLoop E F (length results > 1) manifest results st"

text \<open>
  The loop of \<open>runQuickCmd\<close> that fetches the brands: every identifier is requested, a
  failure is reported and remembered, the loop goes on.
\<close>

fun fetchBrands ::
  "env \<Rightarrow> string list \<Rightarrow> world \<times> QuickResult list \<times> string list
     \<Rightarrow> world \<times> QuickResult list \<times> string list" where
  "fetchBrands E [] (w, results, fetchErrors) = (w, results, fetchErrors)"
| "fetchBrands E (domain # args) (w, results, fetchErrors) =
     (let w = emit (GetBrand domain) w in
      case client_GetBrand E domain of
        Inl err \<Rightarrow>
          fetchBrands E args
            (emit (Stderr (''Error fetching '' @ domain @ '': '' @ errorString err @ nl)) w,
             results,
             fetchErrors @ [domain @ '': '' @ errorString err])
      | Inr brand \<Rightarrow>
          fetchBrands E args (w, results @ [convertBrandToQuickResult brand], fetchErrors))"

text \<open>\<open>strings.Join\<close>.\<close>

fun Join :: "string list \<Rightarrow> string \<Rightarrow> string" where
  "Join [] sep = ''''"
| "Join [x] sep = x"
| "Join (x # y # ys) sep = x @ sep @ Join (y # ys) sep"

definition runQuickCmd :: "env \<Rightarrow> flags \<Rightarrow> world \<Rightarrow> string list \<Rightarrow> error option \<times> world" where
  "runQuickCmd E F w args =
     (if cssOutput F \<and> outputFormat F = ''json''
      then (Some (Errorf ''--css and --output json are mutually exclusive''), w)
      else if tailwindOutput F \<and> outputFormat F = ''json''
      then (Some (Errorf ''--tailwind and --output json are mutually exclusive''), w)
      else if tailwindOutput F \<and> cssOutput F
      then (Some (Errorf ''--tailwind and --css are mutually exclusive''), w)
      else (let (w, results, fetchErrors) = fetchBrands E args (w, [], []) in
            if length results = 0
            then (Some (Errorf (''failed to fetch all domains: '' @ Join fetchErrors ''; '')), w)
            else (case resolveOutput E F of
                    Inl err \<Rightarrow> (Some err, w)
                  | Inr (format, colorize) \<Rightarrow>
                      (let w = emit (Stdout
                                 ((if cssOutput F then FormatQuickCSSBatch results
                                   else if tailwindOutput F then FormatQuickTailwindBatch results
                                   else output_FormatQuickBatch E results format colorize) @ nl)) w
                       in if downloadDir F \<noteq> ''''
                          then (case (if quickSHA256Manifest F \<noteq> ''''
                                      then (case parseSHA256Manifest (w_fs w) (quickSHA256Manifest F) of
                                              Inl err \<Rightarrow> Inl err
                                            | Inr m \<Rightarrow> Inr (Some m))
                                      else Inr None) of
                                  Inl err \<Rightarrow> (Some err, w)
                                | Inr manifest \<Rightarrow>
                                    (case downloadAssetsBatch E F results manifest (w, Some []) of
                                       (Some err, w, manifestEntries) \<Rightarrow> (Some err, w)
                                     | (None, w, manifestEntries) \<Rightarrow>
                                         if quickSHA256ManifestOut F \<noteq> ''''
                                         then (case writeSHA256Manifest (w_fs w)
                                                      (quickSHA256ManifestOut F)
                                                      (case manifestEntries of
                                                         None \<Rightarrow> [] | Some es \<Rightarrow> es)
                                                      (quickSHA256ManifestAppend F) of
                                                 Inl err \<Rightarrow> (Some err, w)
                                               | Inr fs' \<Rightarrow> (None, w\<lparr>w_fs := fs'\<rparr>))
                                         else (None, w)))
                          else if quickSHA256Manifest F \<noteq> ''''
                          then (Some (Errorf ''--sha256-manifest requires --download''), w)
                          else if quickSHA256ManifestOut F \<noteq> ''''
                          then (Some (Errorf ''--sha256-manifest-out requires --download''), w)
                          else if quickSHA256ManifestAppend F
                          then (Some (Errorf
                                  ''--sha256-manifest-append requires --sha256-manifest-out''), w)
                          else (None, w)))))"

section \<open>What a run did\<close>

text \<open>
  The asset URLs requested over HTTP, in order; and the URLs a brand's download can
  request: those of its asset slots for which a request can be built.
\<close>

fun requests :: "event list \<Rightarrow> string list" where
  "requests [] = []"
| "requests (HTTPGet url # evs) = url # requests evs"
| "requests (ev # evs) = requests evs"



text \<open>The network activity of a run: the requests to the brand API and for assets.\<close>

fun network :: "event list \<Rightarrow> event list" where
  "network [] = []"
| "network (GetBrand d # evs) = GetBrand d # network evs"
| "network (HTTPGet url # evs) = HTTPGet url # network evs"
| "network (ev # evs) = network evs"

text \<open>
  The flag combinations that the command checks first, and the error of the manifest
  flags that it checks last, in a run without a download directory.
\<close>

definition mutuallyExclusive :: "flags \<Rightarrow> bool" where
  "mutuallyExclusive F \<longleftrightarrow>
     cssOutput F \<and> outputFormat F = ''json'' \<or>
     tailwindOutput F \<and> outputFormat F = ''json'' \<or>
     tailwindOutput F \<and> cssOutput F"

definition manifestFlagError :: "flags \<Rightarrow> error option" where
  "manifestFlagError F =
     (if quickSHA256Manifest F \<noteq> '''' then Some (Errorf ''--sha256-manifest requires --download'')
      else if quickSHA256ManifestOut F \<noteq> ''''
      then Some (Errorf ''--sha256-manifest-out requires --download'')
      else if quickSHA256ManifestAppend F
      then Some (Errorf ''--sha256-manifest-append requires --sha256-manifest-out'')
      else None)"

definition fetched :: "env \<Rightarrow> string list \<Rightarrow> QuickResult list" where
  "fetched E args = fst (snd (fetchBrands E args (\<lparr>w_fs = emptyDisk, w_trace = []\<rparr>, [], [])))"

definition mutexError :: "flags \<Rightarrow> error" where
  "mutexError F =
     (if cssOutput F \<and> outputFormat F = ''json''
      then Errorf ''--css and --output json are mutually exclusive''
      else if tailwindOutput F \<and> outputFormat F = ''json''
      then Errorf ''--tailwind and --output json are mutually exclusive''
      else Errorf ''--tailwind and --css are mutually exclusive'')"

text \<open>
  What the fetch of the brands does, in order: for every identifier the request to the
  brand API, followed by a line on standard error when it failed. And the text that a
  run with its brands writes to standard output: the CSS, the Tailwind configuration
  or the plain rendering, as the flags ask.
\<close>

fun fetchEvents :: "env \<Rightarrow> string list \<Rightarrow> event list" where
  "fetchEvents E [] = []"
| "fetchEvents E (domain # args) =
     GetBrand domain #
     (case client_GetBrand E domain of
        Inl err \<Rightarrow> [Stderr (''Error fetching '' @ domain @ '': '' @ errorString err @ nl)]
      | Inr brand \<Rightarrow> []) @
     fetchEvents E args"

definition exportText :: "env \<Rightarrow> flags \<Rightarrow> QuickResult list \<Rightarrow> Format \<times> bool \<Rightarrow> string" where
  "exportText E F results x =
     (if cssOutput F then FormatQuickCSSBatch results
      else if tailwindOutput F then FormatQuickTailwindBatch results
      else output_FormatQuickBatch E results (fst x) (snd x))"

text \<open>The directories a run asked to create.\<close>

fun mkdirs :: "event list \<Rightarrow> string list" where
  "mkdirs [] = []"
| "mkdirs (MkdirAll dir # evs) = dir # mkdirs evs"
| "mkdirs (ev # evs) = mkdirs evs"

section \<open>An environment for the examples\<close>

text \<open>
  A small outside world: Unix-like paths, a two-valued stand-in for the digest, a brand
  API that knows every domain but \<open>nosuch.com\<close>, a server that answers 404 for the
  favicon and 200 for the logos, a host \<open>down\<close> that does not answer, and a directory \<open>/ro\<close> in which nothing can be
  created.
\<close>

definition exampleBrand :: "string \<Rightarrow> Brand" where
  "exampleBrand domain =
     \<lparr>b_Name = domain, b_Domain = domain,
      b_Logos =
        [\<lparr>l_Type = ''logo'', l_Theme = ''light'',
          l_Formats = [\<lparr>lf_Src = ''https://cdn/'' @ domain @ ''/light.svg'', lf_Format = ''svg''\<rparr>]\<rparr>,
         \<lparr>l_Type = ''logo'', l_Theme = ''dark'',
          l_Formats = [\<lparr>lf_Src = ''https://cdn/'' @ domain @ ''/dark.svg'', lf_Format = ''svg''\<rparr>]\<rparr>,
         \<lparr>l_Type = ''icon'', l_Theme = ''dark'',
          l_Formats = [\<lparr>lf_Src = ''https://cdn/'' @ domain @ ''/favicon.png'', lf_Format = ''png''\<rparr>]\<rparr>],
      b_Colors = [\<lparr>ac_Hex = ''#635BFF'', ac_Type = ''accent'', ac_Brightness = 0\<rparr>],
      b_Fonts = []\<rparr>"

definition exampleEnv :: env where
  "exampleEnv =
     \<lparr>sha256_Sum = (\<lambda>data. if data = ''<svg/>'' then [CHR 0xAA, CHR 0x11] else [CHR 0xBB, CHR 0x22]),
      filepath_Base = (\<lambda>path. last (Split path (CHR ''/''))),
      filepath_Rel = (\<lambda>root path.
         if HasPrefix path (root @ ''/'') then Inr (drop (length root + 1) path)
         else Inl (Errorf ''Rel: cannot make the path relative'')),
      filepath_Join = (\<lambda>dir name. dir @ ''/'' @ name),
      filepath_Ext = (\<lambda>path. if HasSuffix path ''.png'' then ''.png'' else ''''),
      url_ParsePath = (\<lambda>rawURL. Inr rawURL),
      os_MkdirAll = (\<lambda>dir. if HasPrefix dir ''/ro''
                           then Some (PathError ''mkdir'' dir ''permission denied'') else None),
      http_NewRequest = (\<lambda>url. None),
      http_Do = (\<lambda>url. if HasPrefix url ''https://down/''
                       then Inl (Errorf ''dial tcp: i/o timeout'')
                       else if HasSuffix url ''favicon.png''
                       then Inr \<lparr>StatusCode = 404, Body = '''', BodyErr = None\<rparr>
                       else Inr \<lparr>StatusCode = 200, Body = ''<svg/>'', BodyErr = None\<rparr>),
      client_GetBrand = (\<lambda>domain. if domain = ''nosuch.com'' then Inl (Errorf ''not found'')
                                 else Inr (exampleBrand domain)),
      env_NO_COLOR = True,
      env_isTerminal = False,
      output_FormatQuickBatch = (\<lambda>results format colorize. Join (map q_Name results) nl),
      unicode_ToLower = (\<lambda>s. s)\<rparr>"

definition noFlags :: flags where
  "noFlags =
     \<lparr>downloadDir = '''', cssOutput = False, tailwindOutput = False, quickSHA256 = False,
      quickSHA256Manifest = '''', quickSHA256ManifestOut = '''', quickSHA256ManifestAppend = False,
      quickSHA256ManifestVerify = False, outputFormat = ''text'', colorMode = ''auto''\<rparr>"

definition emptyWorld :: world where
  "emptyWorld = \<lparr>w_fs = emptyDisk, w_trace = []\<rparr>"


section \<open>Properties of the color allocator\<close>

lemma countColorTypes_count:
  "countColorTypes cs typeCounts t = typeCounts t + occurrences cs t"
  by (induction cs arbitrary: typeCounts) (auto simp: occurrences_def)

lemma colorVarsLoop_length: "length (colorVarsLoop tc cs idx) = length cs"
  by (induction cs arbitrary: idx) (auto simp: Let_def)

lemma colorVarsWithPrefixLoop_length: "length (colorVarsWithPrefixLoop p tc cs idx) = length cs"
  by (induction cs arbitrary: idx) (auto simp: Let_def)

lemma colorVarsLoop_nth:
  "i < length cs \<Longrightarrow>
   colorVarsLoop tc cs idx ! i =
     \<lparr>var_name =
        (if tc (c_Type (cs ! i)) > 1
         then ''--color-'' @ c_Type (cs ! i) @ ''-''
              @ itoa (idx (c_Type (cs ! i)) + occurrences (take (Suc i) cs) (c_Type (cs ! i)))
         else ''--color-'' @ c_Type (cs ! i)),
      var_value = c_Hex (cs ! i)\<rparr>"
proof (induction cs arbitrary: idx i)
  case Nil
  then show ?case by simp
next
  case (Cons c cs)
  show ?case
  proof (cases i)
    case 0
    then show ?thesis by (simp add: Let_def occurrences_def)
  next
    case (Suc j)
    with Cons.prems have j: "j < length cs" by simp
    show ?thesis
      using Cons.IH [OF j] Suc by (simp add: Let_def occurrences_def)
  qed
qed

lemma colorVarsWithPrefixLoop_nth:
  "i < length cs \<Longrightarrow>
   colorVarsWithPrefixLoop p tc cs idx ! i =
     \<lparr>var_name =
        (if tc (c_Type (cs ! i)) > 1
         then ''--'' @ p @ ''-color-'' @ c_Type (cs ! i) @ ''-''
              @ itoa (idx (c_Type (cs ! i)) + occurrences (take (Suc i) cs) (c_Type (cs ! i)))
         else ''--'' @ p @ ''-color-'' @ c_Type (cs ! i)),
      var_value = c_Hex (cs ! i)\<rparr>"
proof (induction cs arbitrary: idx i)
  case Nil
  then show ?case by simp
next
  case (Cons c cs)
  show ?case
  proof (cases i)
    case 0
    then show ?thesis by (simp add: Let_def occurrences_def)
  next
    case (Suc j)
    with Cons.prems have j: "j < length cs" by simp
    show ?thesis
      using Cons.IH [OF j] Suc by (simp add: Let_def occurrences_def)
  qed
qed

lemma occurrences_nth_pos: "i < length cs \<Longrightarrow> 0 < occurrences cs (c_Type (cs ! i))"
  unfolding occurrences_def
  by (metis count_list_0_iff length_map not_gr_zero nth_map nth_mem)


text \<open>
  Claim C1. For every sequence of colors, both allocators (the plain one and the one
  with a brand prefix) emit exactly one variable per entry, in arrival order, carrying
  that entry's hex value. The name of entry \<open>i\<close> is the base name followed by its type
  when the type occurs once in the sequence, and the base name, the type, a hyphen and
  the decimal 1-based rank of the entry among the entries of its type (counted in
  arrival order) when the type occurs several times. The name depends on the entries of
  the same type only, so a collision in one type leaves the names of the others alone.
\<close>

theorem buildColorVariables_allocation:
  "length (buildColorVariables colors) = length colors \<and>
   length (buildColorVariablesWithPrefix colors prefix) = length colors \<and>
   (\<forall>i < length colors.
      buildColorVariables colors ! i =
        \<lparr>var_name = allocatedName ''--color-'' colors i, var_value = c_Hex (colors ! i)\<rparr> \<and>
      buildColorVariablesWithPrefix colors prefix ! i =
        \<lparr>var_name = allocatedName (''--'' @ prefix @ ''-color-'') colors i,
         var_value = c_Hex (colors ! i)\<rparr>)"
proof (intro conjI allI impI)
  show "length (buildColorVariables colors) = length colors"
    by (simp add: buildColorVariables_def colorVarsLoop_length)
  show "length (buildColorVariablesWithPrefix colors prefix) = length colors"
    by (simp add: buildColorVariablesWithPrefix_def colorVarsWithPrefixLoop_length)
next
  fix i assume i: "i < length colors"
  let ?t = "c_Type (colors ! i)"
  have pos: "0 < occurrences colors ?t" using i by (rule occurrences_nth_pos)
  have many: "1 < countColorTypes colors (\<lambda>_. 0) ?t \<longleftrightarrow> occurrences colors ?t \<noteq> 1"
    using pos by (simp add: countColorTypes_count) arith
  show "buildColorVariables colors ! i =
        \<lparr>var_name = allocatedName ''--color-'' colors i, var_value = c_Hex (colors ! i)\<rparr>"
    unfolding buildColorVariables_def colorVarsLoop_nth [OF i] allocatedName_def Let_def many
    by simp
  show "buildColorVariablesWithPrefix colors prefix ! i =
        \<lparr>var_name = allocatedName (''--'' @ prefix @ ''-color-'') colors i,
         var_value = c_Hex (colors ! i)\<rparr>"
    unfolding buildColorVariablesWithPrefix_def colorVarsWithPrefixLoop_nth [OF i]
      allocatedName_def Let_def many
    by simp
qed

theorem buildColorVariables_allocation_witness:
  "length (buildColorVariables
      [\<lparr>c_Hex = ''#FF0000'', c_Type = ''accent'', c_Brightness = 0\<rparr>,
       \<lparr>c_Hex = ''#00FF00'', c_Type = ''accent'', c_Brightness = 0\<rparr>,
       \<lparr>c_Hex = ''#FFFFFF'', c_Type = ''light'', c_Brightness = 0\<rparr>]) = 3 \<and>
   buildColorVariables
      [\<lparr>c_Hex = ''#FF0000'', c_Type = ''accent'', c_Brightness = 0\<rparr>,
       \<lparr>c_Hex = ''#00FF00'', c_Type = ''accent'', c_Brightness = 0\<rparr>,
       \<lparr>c_Hex = ''#FFFFFF'', c_Type = ''light'', c_Brightness = 0\<rparr>] ! 0
     = \<lparr>var_name = ''--color-accent-1'', var_value = ''#FF0000''\<rparr> \<and>
   buildColorVariables
      [\<lparr>c_Hex = ''#FF0000'', c_Type = ''accent'', c_Brightness = 0\<rparr>,
       \<lparr>c_Hex = ''#00FF00'', c_Type = ''accent'', c_Brightness = 0\<rparr>,
       \<lparr>c_Hex = ''#FFFFFF'', c_Type = ''light'', c_Brightness = 0\<rparr>] ! 1
     = \<lparr>var_name = ''--color-accent-2'', var_value = ''#00FF00''\<rparr> \<and>
   buildColorVariables
      [\<lparr>c_Hex = ''#FF0000'', c_Type = ''accent'', c_Brightness = 0\<rparr>,
       \<lparr>c_Hex = ''#00FF00'', c_Type = ''accent'', c_Brightness = 0\<rparr>,
       \<lparr>c_Hex = ''#FFFFFF'', c_Type = ''light'', c_Brightness = 0\<rparr>] ! 2
     = \<lparr>var_name = ''--color-light'', var_value = ''#FFFFFF''\<rparr> \<and>
   buildColorVariablesWithPrefix
      [\<lparr>c_Hex = ''#FF0000'', c_Type = ''accent'', c_Brightness = 0\<rparr>,
       \<lparr>c_Hex = ''#00FF00'', c_Type = ''accent'', c_Brightness = 0\<rparr>,
       \<lparr>c_Hex = ''#FFFFFF'', c_Type = ''light'', c_Brightness = 0\<rparr>] ''stripe'' ! 1
     = \<lparr>var_name = ''--stripe-color-accent-2'', var_value = ''#00FF00''\<rparr>"
proof -
  let ?cs = "[\<lparr>c_Hex = ''#FF0000'', c_Type = ''accent'', c_Brightness = 0\<rparr>,
       \<lparr>c_Hex = ''#00FF00'', c_Type = ''accent'', c_Brightness = 0\<rparr>,
       \<lparr>c_Hex = ''#FFFFFF'', c_Type = ''light'', c_Brightness = 0\<rparr>]"
  note a = buildColorVariables_allocation [of ?cs "''stripe''"]
  note at = a [THEN conjunct2, THEN conjunct2, rule_format]
  have len: "length (buildColorVariables ?cs) = 3" using a by simp
  have n0: "buildColorVariables ?cs ! 0
      = \<lparr>var_name = ''--color-accent-1'', var_value = ''#FF0000''\<rparr>"
    using at [of 0]
    by (simp add: allocatedName_def occurrences_def itoa.simps digit_char_def)
  have n1: "buildColorVariables ?cs ! 1
      = \<lparr>var_name = ''--color-accent-2'', var_value = ''#00FF00''\<rparr>"
    using at [of 1]
    by (simp add: allocatedName_def occurrences_def itoa.simps digit_char_def)
  have n2: "buildColorVariables ?cs ! 2
      = \<lparr>var_name = ''--color-light'', var_value = ''#FFFFFF''\<rparr>"
    using at [of 2]
    by (simp add: allocatedName_def occurrences_def itoa.simps digit_char_def)
  have p1: "buildColorVariablesWithPrefix ?cs ''stripe'' ! 1
      = \<lparr>var_name = ''--stripe-color-accent-2'', var_value = ''#00FF00''\<rparr>"
    using at [of 1]
    by (simp add: allocatedName_def occurrences_def itoa.simps digit_char_def)
  from len n0 n1 n2 p1 show ?thesis by blast
qed

section \<open>Properties of the font allocator and of the emitters\<close>

text \<open>
  Claim C2. Appending an exact (name, type) duplicate of a font already in the list
  should leave the emitted names alone, the occurrences being counted after the
  duplicates are dropped (the comment in \<open>buildFontVariables\<close> says "after dedup"). The
  code counts the types over the whole slice, duplicates included, before the loop that
  drops them: for the single font Inter of type title the name is \<open>--font-title\<close> and the
  key \<open>title\<close>, and with the same font listed twice the one emitted name is
  \<open>--font-title-1\<close> and the key \<open>title1\<close>.
\<close>

theorem buildFontVariables_duplicate_renumbers:
  "map var_name (buildFontVariables [\<lparr>f_Name = ''Inter'', f_Type = ''title''\<rparr>])
     = [''--font-title''] \<and>
   map var_name (buildFontVariables
       [\<lparr>f_Name = ''Inter'', f_Type = ''title''\<rparr>, \<lparr>f_Name = ''Inter'', f_Type = ''title''\<rparr>])
     = [''--font-title-1''] \<and>
   buildTailwindFonts [\<lparr>f_Name = ''Inter'', f_Type = ''title''\<rparr>]
     = [''    title: ['' @ sq @ dq @ ''Inter'' @ dq @ sq @ '', '' @ sq @ ''sans-serif'' @ sq
          @ ''],'' @ nl] \<and>
   buildTailwindFonts
       [\<lparr>f_Name = ''Inter'', f_Type = ''title''\<rparr>, \<lparr>f_Name = ''Inter'', f_Type = ''title''\<rparr>]
     = [''    title1: ['' @ sq @ dq @ ''Inter'' @ dq @ sq @ '', '' @ sq @ ''sans-serif'' @ sq
          @ ''],'' @ nl]"
  by (simp add: buildFontVariables_def buildTailwindFonts_def Let_def itoa.simps digit_char_def)

text \<open>
  Claim C9. In both formats the batch export of a list of exactly one entity is the
  single-entity export of that entity, byte for byte. The batch export of no entity is
  the block \<open>:root {\<close>, line feed, \<open>}\<close> in the flat format, which is the single-entity
  export of an entity without colors and fonts, and \<open>module.exports = {\<close>, line feed,
  \<open>}\<close> in the module format, which is the single-entity export of such an entity
  without its two comment lines.
\<close>

theorem batch_export_agrees_with_single:
  "FormatQuickCSSBatch [result] = FormatQuickCSS result \<and>
   FormatQuickTailwindBatch [result] = FormatQuickTailwind result \<and>
   FormatQuickCSSBatch [] = '':root {'' @ nl @ ''}'' \<and>
   FormatQuickTailwindBatch [] = ''module.exports = {'' @ nl @ ''}'' \<and>
   FormatQuickCSS (result\<lparr>q_Colors := [], q_Fonts := []\<rparr>) = FormatQuickCSSBatch [] \<and>
   FormatQuickTailwind (result\<lparr>q_Colors := [], q_Fonts := []\<rparr>)
     = ''// Tailwind CSS config for '' @ q_Name result @ nl
       @ ''// Add to your tailwind.config.js theme.extend'' @ nl
       @ FormatQuickTailwindBatch []"
  by (simp add: FormatQuickCSSBatch_def FormatQuickTailwindBatch_def FormatQuickCSS_def
        FormatQuickTailwind_def)

theorem batch_export_agrees_with_single_witness:
  "FormatQuickCSSBatch
     [\<lparr>q_Name = ''Stripe'', q_Domain = ''stripe.com'', q_LogoLight = '''', q_LogoDark = '''',
       q_Favicon = '''',
       q_Colors = [\<lparr>c_Hex = ''#635BFF'', c_Type = ''accent'', c_Brightness = 0\<rparr>],
       q_Fonts = [\<lparr>f_Name = ''Inter'', f_Type = ''title''\<rparr>]\<rparr>]
   = '':root {'' @ nl @ ''  /* Colors */'' @ nl @ ''  --color-accent: #635BFF;'' @ nl @ nl
     @ ''  /* Fonts */'' @ nl @ ''  --font-title: '' @ sq @ ''Inter'' @ sq @ '', sans-serif;''
     @ nl @ ''}''"
  using batch_export_agrees_with_single
    [of "\<lparr>q_Name = ''Stripe'', q_Domain = ''stripe.com'', q_LogoLight = '''', q_LogoDark = '''',
       q_Favicon = '''',
       q_Colors = [\<lparr>c_Hex = ''#635BFF'', c_Type = ''accent'', c_Brightness = 0\<rparr>],
       q_Fonts = [\<lparr>f_Name = ''Inter'', f_Type = ''title''\<rparr>]\<rparr>"]
  by (simp add: FormatQuickCSS_def cssLines_def buildColorVariables_def buildFontVariables_def
        Let_def)

section \<open>Properties of the checksum engine\<close>

lemma parseLines_distinct:
  "distinct (map fst acc) \<Longrightarrow> distinct (map fst (parseLines ls acc))"
  by (induction ls arbitrary: acc) (auto simp: Let_def distinct_update)

lemma copyExisting_distinct:
  "distinct (map fst acc) \<Longrightarrow> distinct (map fst (copyExisting ex acc))"
  by (induction ex acc rule: copyExisting.induct) (auto simp: distinct_update)

lemma copyExisting_map_of:
  "map_of (copyExisting ex acc) = map_of acc ++ map_of (rev ex)"
proof (induction ex acc rule: copyExisting.induct)
  case (1 merged)
  show ?case by simp
next
  case (2 k v existing merged)
  have "map_of (copyExisting ((k, v) # existing) merged)
          = (map_of merged)(k \<mapsto> v) ++ map_of (rev existing)"
    using "2.IH" by (simp add: update_conv' fun_upd_def)
  also have "\<dots> = map_of merged ++ map_of (rev ((k, v) # existing))"
    by (rule ext) (simp add: map_add_def split: option.splits)
  finally show ?case .
qed

lemma map_of_rev_distinct:
  "distinct (map fst xs) \<Longrightarrow> map_of (rev xs) = map_of xs"
proof (induction xs)
  case Nil
  show ?case by simp
next
  case (Cons kv xs)
  obtain k v where kv: "kv = (k, v)" by (cases kv)
  from Cons.prems kv have k: "map_of xs k = None" and d: "distinct (map fst xs)"
    by (auto simp: map_of_eq_None_iff)
  have "map_of (rev (kv # xs)) = map_of [(k, v)] ++ map_of xs"
    using Cons.IH [OF d] kv by simp
  also have "\<dots> = map_of (kv # xs)"
    using k kv by (intro ext) (simp add: map_add_def split: option.splits)
  finally show ?case .
qed

lemma mergeEntries_distinct:
  "distinct (map fst acc) \<Longrightarrow> distinct (map fst (mergeEntries es acc))"
  by (induction es arbitrary: acc) (auto simp: distinct_update)

lemma mergeEntries_map_of:
  "map_of (mergeEntries es acc) = map_of acc ++ entryMap (filter wellFormed es)"
proof (induction es arbitrary: acc)
  case Nil
  show ?case by (simp add: entryMap_def)
next
  case (Cons e es)
  show ?case
  proof (cases "wellFormed e")
    case False
    then show ?thesis using Cons.IH [of acc] by (auto simp: wellFormed_def)
  next
    case True
    then have pe: "e_Path e \<noteq> []" "e_Sum e \<noteq> []"
      by (simp_all add: wellFormed_def)
    have "map_of (mergeEntries (e # es) acc)
        = (map_of acc)(e_Path e \<mapsto> e_Sum e) ++ entryMap (filter wellFormed es)"
      using Cons.IH [of "AList.update (e_Path e) (e_Sum e) acc"] pe
      by (simp add: update_conv' fun_upd_def)
    also have "\<dots> = map_of acc ++ entryMap (filter wellFormed (e # es))"
      using True by (intro ext) (simp add: entryMap_def map_add_def split: option.splits)
    finally show ?thesis .
  qed
qed

lemma sorted_keys:
  "distinct (map fst m) \<Longrightarrow> sort (map fst m) = sorted_list_of_set (dom (map_of m))"
  by (simp add: dom_map_of_conv_image_fst sorted_list_of_set_sort_remdups distinct_remdups_id
        flip: set_map)

lemma parseSHA256Manifest_distinct:
  "parseSHA256Manifest fs path = Inr m \<Longrightarrow> distinct (map fst m)"
  by (auto simp: parseSHA256Manifest_def parseLines_distinct split: sum.splits)

lemma mergedList_distinct: "distinct (map fst (mergedList fs path entries a))"
  unfolding mergedList_def
  by (intro mergeEntries_distinct) (auto simp: copyExisting_distinct split: sum.splits)

lemma mergedList_map_of:
  "map_of (mergedList fs path entries a)
     = (if a then existingManifest fs path else Map.empty) ++ entryMap (filter wellFormed entries)"
proof -
  have "map_of (case parseSHA256Manifest fs path of
                  Inr existing \<Rightarrow> copyExisting existing []
                | Inl err \<Rightarrow> []) = existingManifest fs path"
  proof (cases "parseSHA256Manifest fs path")
    case (Inl err)
    then show ?thesis by (simp add: existingManifest_def)
  next
    case (Inr m)
    then have "distinct (map fst m)" by (rule parseSHA256Manifest_distinct)
    then show ?thesis
      using Inr by (simp add: existingManifest_def copyExisting_map_of map_of_rev_distinct)
  qed
  then show ?thesis
    by (simp add: mergedList_def mergeEntries_map_of)
qed

lemma manifest_lines_text:
  "distinct (map fst merged) \<Longrightarrow>
   concat (map (manifestLine merged) (sort (map fst merged))) = manifestText (map_of merged)"
  by (simp add: manifestText_def sorted_keys manifestLine_def [abs_def])

lemma writeSHA256Manifest_text:
  "entries \<noteq> [] \<Longrightarrow>
   writeSHA256Manifest fs path entries a
     = WriteFile fs path
         (manifestText ((if a then existingManifest fs path else Map.empty)
                          ++ entryMap (filter wellFormed entries)))"
proof -
  assume ne: "entries \<noteq> []"
  have "writeSHA256Manifest fs path entries a
      = WriteFile fs path (concat (map (manifestLine (mergedList fs path entries a))
                                       (sort (map fst (mergedList fs path entries a)))))"
    using ne by (simp add: writeSHA256Manifest_def mergedList_def Let_def)
  then show ?thesis
    by (simp add: manifest_lines_text [OF mergedList_distinct] mergedList_map_of)
qed

lemma filter_wellFormed_all: "list_all wellFormed entries \<Longrightarrow> filter wellFormed entries = entries"
  by (simp add: list_all_iff)

lemma entryMap_None: "k \<notin> e_Path ` set entries \<Longrightarrow> entryMap entries k = None"
  by (force simp: entryMap_def map_of_eq_None_iff)

lemma mergedManifest_other:
  "k \<notin> e_Path ` set entries \<Longrightarrow> mergedManifest ex entries k = ex k"
  by (simp add: mergedManifest_def map_add_def entryMap_None)

lemma entryMap_last:
  "e_Path e \<notin> e_Path ` set ys \<Longrightarrow> entryMap (xs @ e # ys) (e_Path e) = Some (e_Sum e)"
proof -
  assume "e_Path e \<notin> e_Path ` set ys"
  then have "entryMap ys (e_Path e) = None" by (rule entryMap_None)
  then show ?thesis
    by (simp add: entryMap_def map_add_def split: option.splits)
qed

lemma mergedManifest_last:
  "e_Path e \<notin> e_Path ` set ys \<Longrightarrow>
   mergedManifest ex (xs @ e # ys) (e_Path e) = Some (e_Sum e)"
  by (simp add: mergedManifest_def map_add_def entryMap_last)

lemma WriteFile_canWrite:
  "canWrite fs path \<Longrightarrow>
   WriteFile fs path data
     = Inr (fs\<lparr>files := (files fs)(path \<mapsto>
              File data (case files fs path of None \<Rightarrow> True | Some f \<Rightarrow> readable f) True)\<rparr>)"
  by (auto simp: canWrite_def WriteFile_def split: option.splits)

text \<open>The equations that evaluate white space on a given string.\<close>

lemmas whitespace_simps = leadingSpace_def trailingSpace_def space1_def space2_def space3_def

lemmas TrimSpace_simps = TrimSpace_def trimLeft.simps trimRight.simps

text \<open>
  Claim C3, as the code has it. Writing a manifest in append mode is a sorted
  last-write-wins merge when there is something to write. For a non-empty list of
  entries, \<open>writeSHA256Manifest\<close> with \<open>appendExisting\<close> writes to the path the text of
  the merged manifest: the manifest parsed from the file at the path (empty when there
  is none) overlaid with the new entries whose path and digest are not empty (the code
  skips the others), one line \<open><hex>  <relPath>\<close> per key, the keys in ascending
  order whatever the order of the entries. A key that no such entry has keeps the
  digest of the existing manifest; a key of such an entry gets the digest of the last
  of them with that path. Where the file can be written, the file holds exactly that
  text afterwards. For an empty list of entries, which a run has when every download
  failed, nothing is merged and nothing is written: the call fails with "no downloaded
  files to write" and the existing manifest stays as it is.
\<close>

theorem writeSHA256Manifest_append_merges:
  "writeSHA256Manifest fs path entries True
     = (if entries = [] then Inl (Errorf ''no downloaded files to write'')
        else WriteFile fs path
               (manifestText (mergedManifest (existingManifest fs path)
                                (filter wellFormed entries)))) \<and>
   (\<forall>k. k \<notin> e_Path ` set (filter wellFormed entries) \<longrightarrow>
        mergedManifest (existingManifest fs path) (filter wellFormed entries) k
          = existingManifest fs path k) \<and>
   (\<forall>xs e ys. filter wellFormed entries = xs @ e # ys \<and> e_Path e \<notin> e_Path ` set ys \<longrightarrow>
        mergedManifest (existingManifest fs path) (filter wellFormed entries) (e_Path e)
          = Some (e_Sum e)) \<and>
   (entries \<noteq> [] \<and> canWrite fs path \<longrightarrow>
      (\<exists>fs'. writeSHA256Manifest fs path entries True = Inr fs' \<and>
             map_option content (files fs' path)
               = Some (manifestText (mergedManifest (existingManifest fs path)
                                       (filter wellFormed entries)))))"
proof (cases "entries = []")
  case True
  then show ?thesis
    by (simp add: writeSHA256Manifest_def mergedManifest_other mergedManifest_last)
next
  case False
  then show ?thesis
    by (simp add: writeSHA256Manifest_text mergedManifest_def [symmetric]
          mergedManifest_other mergedManifest_last WriteFile_canWrite)
qed

theorem writeSHA256Manifest_append_merges_witness:
  "writeSHA256Manifest (diskWith ''m'' (File (''1  A'' @ nl) True True)) ''m''
       [\<lparr>e_Path = ''B'', e_Sum = ''2''\<rparr>] True
     = Inr (diskWith ''m'' (File (''1  A'' @ nl @ ''2  B'' @ nl) True True)) \<and>
   writeSHA256Manifest (diskWith ''m'' (File (''1  A'' @ nl @ ''2  B'' @ nl) True True)) ''m''
       [\<lparr>e_Path = ''A'', e_Sum = ''9''\<rparr>] True
     = Inr (diskWith ''m'' (File (''9  A'' @ nl @ ''2  B'' @ nl) True True)) \<and>
   writeSHA256Manifest
       (diskWith ''m'' (File (''# old'' @ nl @ ''2  ./B'' @ nl @ '' 1 *A  x '' @ nl) True True)) ''m''
       [\<lparr>e_Path = ''C'', e_Sum = ''3''\<rparr>, \<lparr>e_Path = ''A'', e_Sum = ''''\<rparr>,
        \<lparr>e_Path = ''C'', e_Sum = ''4''\<rparr>] True
     = Inr (diskWith ''m'' (File (''1  A'' @ nl @ ''2  B'' @ nl @ ''4  C'' @ nl) True True)) \<and>
   writeSHA256Manifest
       (diskWith ''m'' (File (''7'' @ [CHR 0xC2, CHR 0xA0, CHR 0xE3, CHR 0x80, CHR 0x80] @ ''D'' @ nl)
          True True)) ''m''
       [\<lparr>e_Path = ''B'', e_Sum = ''2''\<rparr>] True
     = Inr (diskWith ''m'' (File (''2  B'' @ nl @ ''7  D'' @ nl) True True))"
proof -
  let ?d1 = "diskWith ''m'' (File (''1  A'' @ nl) True True)"
  let ?d2 = "diskWith ''m'' (File (''1  A'' @ nl @ ''2  B'' @ nl) True True)"
  let ?d3 = "diskWith ''m'' (File (''# old'' @ nl @ ''2  ./B'' @ nl @ '' 1 *A  x '' @ nl) True True)"
  let ?d4 = "diskWith ''m''
               (File (''7'' @ [CHR 0xC2, CHR 0xA0, CHR 0xE3, CHR 0x80, CHR 0x80] @ ''D'' @ nl) True True)"
  let ?B = "[\<lparr>e_Path = ''B'', e_Sum = ''2''\<rparr>]"
  let ?A = "[\<lparr>e_Path = ''A'', e_Sum = ''9''\<rparr>]"
  let ?C = "[\<lparr>e_Path = ''C'', e_Sum = ''3''\<rparr>, \<lparr>e_Path = ''A'', e_Sum = ''''\<rparr>,
             \<lparr>e_Path = ''C'', e_Sum = ''4''\<rparr>]"
  have e1: "existingManifest ?d1 ''m'' = [''A'' \<mapsto> ''1'']"
    by (simp add: existingManifest_def parseSHA256Manifest_def ReadFile_def diskWith_def
          Split_def TrimSpace_simps whitespace_simps HasPrefix_def Fields_def TrimPrefix_def)
  have e2: "existingManifest ?d2 ''m'' = [''B'' \<mapsto> ''2'', ''A'' \<mapsto> ''1'']"
    by (simp add: existingManifest_def parseSHA256Manifest_def ReadFile_def diskWith_def
          Split_def TrimSpace_simps whitespace_simps HasPrefix_def Fields_def TrimPrefix_def)
  have e3: "existingManifest ?d3 ''m'' = [''A'' \<mapsto> ''1'', ''B'' \<mapsto> ''2'']"
    by (simp add: existingManifest_def parseSHA256Manifest_def ReadFile_def diskWith_def
          Split_def TrimSpace_simps whitespace_simps HasPrefix_def Fields_def TrimPrefix_def)
  have e4: "existingManifest ?d4 ''m'' = [''D'' \<mapsto> ''7'']"
    by (simp add: existingManifest_def parseSHA256Manifest_def ReadFile_def diskWith_def
          Split_def TrimSpace_simps whitespace_simps HasPrefix_def Fields_def TrimPrefix_def)
  have t1: "manifestText (mergedManifest [''A'' \<mapsto> ''1''] (filter wellFormed ?B))
              = ''1  A'' @ nl @ ''2  B'' @ nl"
    by (simp add: manifestText_def mergedManifest_def entryMap_def wellFormed_def)
  have t2: "manifestText (mergedManifest [''B'' \<mapsto> ''2'', ''A'' \<mapsto> ''1''] (filter wellFormed ?A))
              = ''9  A'' @ nl @ ''2  B'' @ nl"
    by (simp add: manifestText_def mergedManifest_def entryMap_def wellFormed_def)
  have t3: "manifestText (mergedManifest [''A'' \<mapsto> ''1'', ''B'' \<mapsto> ''2''] (filter wellFormed ?C))
              = ''1  A'' @ nl @ ''2  B'' @ nl @ ''4  C'' @ nl"
    by (simp add: manifestText_def mergedManifest_def entryMap_def wellFormed_def)
  have t4: "manifestText (mergedManifest [''D'' \<mapsto> ''7''] (filter wellFormed ?B))
              = ''2  B'' @ nl @ ''7  D'' @ nl"
    by (simp add: manifestText_def mergedManifest_def entryMap_def wellFormed_def)
  have w1: "writeSHA256Manifest ?d1 ''m'' ?B True
      = Inr (diskWith ''m'' (File (''1  A'' @ nl @ ''2  B'' @ nl) True True))"
    using writeSHA256Manifest_append_merges [of ?d1 "''m''" ?B] unfolding e1 t1
    by (simp add: WriteFile_def diskWith_def)
  have w2: "writeSHA256Manifest ?d2 ''m'' ?A True
      = Inr (diskWith ''m'' (File (''9  A'' @ nl @ ''2  B'' @ nl) True True))"
    using writeSHA256Manifest_append_merges [of ?d2 "''m''" ?A] unfolding e2 t2
    by (simp add: WriteFile_def diskWith_def)
  have w3: "writeSHA256Manifest ?d3 ''m'' ?C True
      = Inr (diskWith ''m'' (File (''1  A'' @ nl @ ''2  B'' @ nl @ ''4  C'' @ nl) True True))"
    using writeSHA256Manifest_append_merges [of ?d3 "''m''" ?C] unfolding e3 t3
    by (simp add: WriteFile_def diskWith_def)
  have w4: "writeSHA256Manifest ?d4 ''m'' ?B True
      = Inr (diskWith ''m'' (File (''2  B'' @ nl @ ''7  D'' @ nl) True True))"
    using writeSHA256Manifest_append_merges [of ?d4 "''m''" ?B] unfolding e4 t4
    by (simp add: WriteFile_def diskWith_def)
  from w1 w2 w3 w4 show ?thesis by blast
qed

theorem writeSHA256Manifest_append_nothing_counterexample:
  "writeSHA256Manifest (diskWith ''m'' (File (''1  A'' @ nl) True True)) ''m'' [] True
     = Inl (Errorf ''no downloaded files to write'') \<and>
   mergedManifest (existingManifest (diskWith ''m'' (File (''1  A'' @ nl) True True)) ''m'') []
     = [''A'' \<mapsto> ''1''] \<and>
   WriteFile (diskWith ''m'' (File (''1  A'' @ nl) True True)) ''m''
       (manifestText [''A'' \<mapsto> ''1''])
     = Inr (diskWith ''m'' (File (''1  A'' @ nl) True True))"
  by (simp add: writeSHA256Manifest_def mergedManifest_def entryMap_def manifestText_def
        existingManifest_def parseSHA256Manifest_def ReadFile_def WriteFile_def diskWith_def
        Split_def TrimSpace_simps whitespace_simps HasPrefix_def Fields_def TrimPrefix_def)

text \<open>The two ways in which parsing a manifest fails: no file, or a file that cannot be read.\<close>

lemma parseSHA256Manifest_fails_iff:
  "(\<exists>err. parseSHA256Manifest fs path = Inl err) \<longleftrightarrow>
     (files fs path = None \<or> (\<exists>f. files fs path = Some f \<and> \<not> readable f))"
  by (auto simp: parseSHA256Manifest_def ReadFile_def split: option.splits sum.splits)

lemma WriteFile_error:
  "WriteFile fs path data = Inl err \<Longrightarrow> \<exists>reason. err = PathError ''open'' path reason"
  by (auto simp: WriteFile_def split: option.splits if_splits)

text \<open>
  Claim C5, as the code has it. \<open>writeSHA256Manifest\<close> rejects an empty list of entries
  whether or not it appends: it returns the error "no downloaded files to write"
  exactly when the list is empty. The claim's "only in non-append mode" fails: with
  \<open>appendExisting\<close> set, the empty list is rejected all the same.
\<close>

theorem writeSHA256Manifest_empty_rejected:
  "(writeSHA256Manifest fs path entries appendExisting
      = Inl (Errorf ''no downloaded files to write'')) = (entries = [])"
proof (cases "entries = []")
  case True
  then show ?thesis by (simp add: writeSHA256Manifest_def)
next
  case False
  have "writeSHA256Manifest fs path entries appendExisting
          \<noteq> Inl (Errorf ''no downloaded files to write'')"
  proof
    assume "writeSHA256Manifest fs path entries appendExisting
              = Inl (Errorf ''no downloaded files to write'')"
    then have "\<exists>data. WriteFile fs path data = Inl (Errorf ''no downloaded files to write'')"
      using False by (auto simp: writeSHA256Manifest_text)
    then show False by (auto dest: WriteFile_error)
  qed
  with False show ?thesis by simp
qed

theorem writeSHA256Manifest_empty_rejected_witness:
  "writeSHA256Manifest emptyDisk ''checksums.sha256'' [] False
     = Inl (Errorf ''no downloaded files to write'') \<and>
   writeSHA256Manifest emptyDisk ''checksums.sha256'' [\<lparr>e_Path = ''A'', e_Sum = ''1''\<rparr>] True
     \<noteq> Inl (Errorf ''no downloaded files to write'')"
  using writeSHA256Manifest_empty_rejected [of emptyDisk "''checksums.sha256''" "[]" False]
    writeSHA256Manifest_empty_rejected
      [of emptyDisk "''checksums.sha256''" "[\<lparr>e_Path = ''A'', e_Sum = ''1''\<rparr>]" True]
  by simp

theorem writeSHA256Manifest_empty_append_counterexample:
  "writeSHA256Manifest emptyDisk ''checksums.sha256'' [] True
     = Inl (Errorf ''no downloaded files to write'')"
  by (simp add: writeSHA256Manifest_def)

text \<open>
  Claim C10. In append mode a manifest that cannot be parsed, because the file is
  absent or because it is there and cannot be read, counts as empty: the error of the
  parse is dropped, the call does what the call without append does and writes the new
  entries alone. A file that is unreadable and writable holds the new entries only
  afterwards; what it held before is gone.
\<close>

theorem writeSHA256Manifest_append_drops_parse_error:
  "parseSHA256Manifest fs path = Inl err \<Longrightarrow> entries \<noteq> [] \<Longrightarrow>
   writeSHA256Manifest fs path entries True = writeSHA256Manifest fs path entries False \<and>
   writeSHA256Manifest fs path entries True
     = WriteFile fs path (manifestText (entryMap (filter wellFormed entries))) \<and>
   writeSHA256Manifest fs path entries True \<noteq> Inl err \<and>
   (\<forall>f. files fs path = Some f \<and> writable f \<longrightarrow>
      writeSHA256Manifest fs path entries True
        = Inr (fs\<lparr>files := (files fs)(path \<mapsto>
                 File (manifestText (entryMap (filter wellFormed entries))) (readable f) True)\<rparr>))"
proof -
  assume p: "parseSHA256Manifest fs path = Inl err" and ne: "entries \<noteq> []"
  have ex: "existingManifest fs path = Map.empty"
    using p by (simp add: existingManifest_def)
  have w: "writeSHA256Manifest fs path entries True
             = WriteFile fs path (manifestText (entryMap (filter wellFormed entries)))"
    using ne by (simp add: writeSHA256Manifest_text ex)
  have n: "writeSHA256Manifest fs path entries False
             = WriteFile fs path (manifestText (entryMap (filter wellFormed entries)))"
    using ne by (simp add: writeSHA256Manifest_text)
  have e: "\<exists>e'. err = Wrapf ''failed to read manifest'' e'"
    using p by (auto simp: parseSHA256Manifest_def split: sum.splits)
  have d: "writeSHA256Manifest fs path entries True \<noteq> Inl err"
    using e by (auto simp: w dest: WriteFile_error)
  have f: "\<forall>f. files fs path = Some f \<and> writable f \<longrightarrow>
      writeSHA256Manifest fs path entries True
        = Inr (fs\<lparr>files := (files fs)(path \<mapsto>
                 File (manifestText (entryMap (filter wellFormed entries))) (readable f) True)\<rparr>)"
    by (simp add: w WriteFile_def)
  from w n d f show ?thesis by simp
qed

theorem writeSHA256Manifest_append_drops_parse_error_witness:
  "parseSHA256Manifest (diskWith ''m'' (File (''1  A'' @ nl) False True)) ''m''
     = Inl (Wrapf ''failed to read manifest'' (PathError ''open'' ''m'' ''permission denied'')) \<and>
   [\<lparr>e_Path = ''B'', e_Sum = ''2''\<rparr>] \<noteq> [] \<and>
   writeSHA256Manifest (diskWith ''m'' (File (''1  A'' @ nl) False True)) ''m''
       [\<lparr>e_Path = ''B'', e_Sum = ''2''\<rparr>] True
     = Inr (diskWith ''m'' (File (''2  B'' @ nl) False True))"
proof -
  let ?d = "diskWith ''m'' (File (''1  A'' @ nl) False True)"
  let ?B = "[\<lparr>e_Path = ''B'', e_Sum = ''2''\<rparr>]"
  have p: "parseSHA256Manifest ?d ''m''
     = Inl (Wrapf ''failed to read manifest'' (PathError ''open'' ''m'' ''permission denied''))"
    by (simp add: parseSHA256Manifest_def ReadFile_def diskWith_def)
  have ne: "?B \<noteq> []" by simp
  have t: "manifestText (entryMap (filter wellFormed ?B)) = ''2  B'' @ nl"
    by (simp add: manifestText_def entryMap_def wellFormed_def)
  have f: "files ?d ''m'' = Some (File (''1  A'' @ nl) False True) \<and>
           writable (File (''1  A'' @ nl) False True)"
    by (simp add: diskWith_def)
  note c = writeSHA256Manifest_append_drops_parse_error
    [OF p ne, THEN conjunct2, THEN conjunct2, THEN conjunct2, rule_format, OF f]
  have "writeSHA256Manifest ?d ''m'' ?B True = Inr (diskWith ''m'' (File (''2  B'' @ nl) False True))"
    unfolding c t by (simp add: diskWith_def)
  with p ne show ?thesis by blast
qed

text \<open>Reading back what was written: line by line.\<close>

lemma splitFrom_no_sep:
  "sep \<notin> set x \<Longrightarrow> splitFrom sep cur (x @ sep # rest) = (cur @ x) # splitFrom sep [] rest"
  by (induction x arbitrary: cur) auto

lemma Split_lines:
  "\<forall>l \<in> set ls. sep \<notin> set l \<Longrightarrow>
   Split (concat (map (\<lambda>l. l @ [sep]) ls)) sep = ls @ [[]]"
  unfolding Split_def by (induction ls) (auto simp: splitFrom_no_sep)

lemma leadingSpace_Nil: "leadingSpace [] = 0"
  by (simp add: leadingSpace_def space1_def space2_def space3_def)

lemma trailingSpace_Nil: "trailingSpace [] = 0"
  by (simp add: trailingSpace_def space1_def space2_def space3_def)

lemma leadingSpace_blank: "leadingSpace (CHR 0x20 # r) = 1"
  by (simp add: leadingSpace_def space1_def space2_def space3_def)

lemma leadingSpace_nl: "leadingSpace (CHR 0x0A # r) = 1"
  by (simp add: leadingSpace_def space1_def space2_def space3_def)

lemma leadingSpace_append_blank:
  "x \<noteq> [] \<Longrightarrow> leadingSpace (x @ CHR 0x20 # r) = leadingSpace x"
proof (cases x)
  case Nil
  assume "x \<noteq> []" with Nil show ?thesis by simp
next
  case c1: (Cons a x1)
  show ?thesis
  proof (cases x1)
    case Nil
    with c1 show ?thesis by (simp add: leadingSpace_def space1_def space2_def space3_def)
  next
    case c2: (Cons b x2)
    show ?thesis
    proof (cases x2)
      case Nil
      with c1 c2 show ?thesis by (simp add: leadingSpace_def space1_def space2_def space3_def)
    next
      case (Cons c x3)
      with c1 c2 show ?thesis by (simp add: leadingSpace_def)
    qed
  qed
qed

lemma trailingSpace_rev:
  "trailingSpace s =
     (if rev (take 1 (rev s)) \<in> set space1 then 1
      else if rev (take 2 (rev s)) \<in> set space2 then 2
      else if rev (take 3 (rev s)) \<in> set space3 then 3
      else 0)"
  unfolding trailingSpace_def by (simp only: take_rev rev_rev_ident)

lemma trailingSpace_blank_append:
  "p \<noteq> [] \<Longrightarrow> trailingSpace (y @ CHR 0x20 # p) = trailingSpace p"
proof (cases p rule: rev_cases)
  case Nil
  assume "p \<noteq> []" with Nil show ?thesis by simp
next
  case c1: (snoc p1 a)
  show ?thesis
  proof (cases p1 rule: rev_cases)
    case Nil
    with c1 show ?thesis by (simp add: trailingSpace_rev space1_def space2_def space3_def)
  next
    case c2: (snoc p2 b)
    show ?thesis
    proof (cases p2 rule: rev_cases)
      case Nil
      with c1 c2 show ?thesis by (simp add: trailingSpace_rev space1_def space2_def space3_def)
    next
      case (snoc p3 c)
      with c1 c2 show ?thesis by (simp add: trailingSpace_rev)
    qed
  qed
qed

lemma noSpace_append: "noSpace (a @ b) \<Longrightarrow> noSpace b"
  by (induction a) auto

lemma noSpace_drop: "noSpace s \<Longrightarrow> noSpace (drop n s)"
  using noSpace_append [of "take n s" "drop n s"] by simp

lemma space_leading: "s \<in> set space1 \<union> set space2 \<union> set space3 \<Longrightarrow> leadingSpace s \<noteq> 0"
  by (auto simp: leadingSpace_def space1_def space2_def space3_def)

lemma space_not_Nil: "s \<in> set space1 \<union> set space2 \<union> set space3 \<Longrightarrow> s \<noteq> []"
  by (auto simp: space1_def space2_def space3_def)

lemma noSpace_leading: "noSpace s \<Longrightarrow> leadingSpace s = 0"
  by (cases s) (simp_all add: leadingSpace_Nil)

lemma noSpace_not_space: "noSpace s \<Longrightarrow> s \<notin> set space1 \<union> set space2 \<union> set space3"
  using space_leading noSpace_leading by blast

lemma noSpace_trailing: "noSpace s \<Longrightarrow> trailingSpace s = 0"
  unfolding trailingSpace_def using noSpace_not_space [OF noSpace_drop] by auto

lemma noSpace_nl: "noSpace s \<Longrightarrow> CHR 0x0A \<notin> set s"
  by (induction s) (auto simp: leadingSpace_nl)

lemma TrimSpace_fixed: "leadingSpace s = 0 \<Longrightarrow> trailingSpace s = 0 \<Longrightarrow> TrimSpace s = s"
  by (simp add: TrimSpace_def trimLeft.simps trimRight.simps)

lemma TrimSpace_line:
  assumes "isToken h" "isToken p"
  shows "TrimSpace (entryLine h p) = entryLine h p"
proof -
  have h: "h \<noteq> []" "noSpace h" and p: "p \<noteq> []" "noSpace p"
    using assms by (auto simp: isToken_def)
  have "leadingSpace (h @ CHR 0x20 # CHR 0x20 # p) = 0"
    unfolding leadingSpace_append_blank [OF h(1)] by (rule noSpace_leading [OF h(2)])
  moreover have "trailingSpace ((h @ [CHR 0x20]) @ CHR 0x20 # p) = 0"
    unfolding trailingSpace_blank_append [OF p(1)] by (rule noSpace_trailing [OF p(2)])
  ultimately show ?thesis
    by (intro TrimSpace_fixed) (simp_all add: entryLine_def)
qed

lemma fieldsFrom_token_blank:
  "noSpace x \<Longrightarrow> fieldsFrom cur (x @ CHR 0x20 # r) = fieldsFrom (cur @ x) (CHR 0x20 # r)"
proof (induction x arbitrary: cur)
  case Nil
  show ?case by simp
next
  case (Cons c cs)
  have "leadingSpace ((c # cs) @ CHR 0x20 # r) = 0"
    unfolding leadingSpace_append_blank [OF list.distinct(2)] using Cons.prems by simp
  then have "fieldsFrom cur ((c # cs) @ CHR 0x20 # r) = fieldsFrom (cur @ [c]) (cs @ CHR 0x20 # r)"
    by simp
  also have "\<dots> = fieldsFrom ((cur @ [c]) @ cs) (CHR 0x20 # r)"
    using Cons.prems by (intro Cons.IH) simp
  finally show ?case by simp
qed

lemma fieldsFrom_token_end:
  "noSpace x \<Longrightarrow> fieldsFrom cur x = (if cur @ x = [] then [] else [cur @ x])"
  by (induction x arbitrary: cur) auto

lemma fieldsFrom_blank:
  "fieldsFrom cur (CHR 0x20 # r) = (if cur = [] then fieldsFrom [] r else cur # fieldsFrom [] r)"
  by (simp add: leadingSpace_blank)

lemma Fields_line:
  assumes "isToken h" "isToken p"
  shows "Fields (entryLine h p) = [h, p]"
proof -
  have h: "h \<noteq> []" "noSpace h" and p: "p \<noteq> []" "noSpace p"
    using assms by (auto simp: isToken_def)
  have "Fields (entryLine h p) = fieldsFrom [] (h @ CHR 0x20 # CHR 0x20 # p)"
    by (simp add: Fields_def entryLine_def)
  also have "\<dots> = fieldsFrom h (CHR 0x20 # CHR 0x20 # p)"
    unfolding fieldsFrom_token_blank [OF h(2)] by simp
  also have "\<dots> = h # fieldsFrom [] p"
    unfolding fieldsFrom_blank using h(1) by simp
  also have "\<dots> = [h, p]"
    unfolding fieldsFrom_token_end [OF p(2)] using p(1) by simp
  finally show ?thesis .
qed

lemma parseLines_line:
  assumes "isToken h" "isToken p" "\<not> HasPrefix h ''#''" "\<not> HasPrefix p ''*''" "\<not> HasPrefix p ''./''"
  shows "parseLines (entryLine h p # rest) acc = parseLines rest (AList.update p h acc)"
proof -
  have ne: "h \<noteq> []" "p \<noteq> []" using assms by (auto simp: isToken_def)
  have hp: "\<not> HasPrefix (entryLine h p) ''#''"
    using assms(3) ne by (cases h) (auto simp: HasPrefix_def entryLine_def)
  have l: "entryLine h p \<noteq> []" using ne by (simp add: entryLine_def)
  show ?thesis
    unfolding parseLines.simps Let_def TrimSpace_line [OF assms(1,2)] Fields_line [OF assms(1,2)]
    using ne hp l assms(4,5) by (simp add: TrimPrefix_def)
qed

lemma parseLines_lines:
  "\<forall>(p, h) \<in> set kvs. isToken h \<and> isToken p \<and> \<not> HasPrefix h ''#'' \<and> \<not> HasPrefix p ''*''
       \<and> \<not> HasPrefix p ''./'' \<Longrightarrow>
   map_of (parseLines (map (\<lambda>(p, h). entryLine h p) kvs @ [[]]) acc)
     = map_of acc ++ map_of (rev kvs)"
proof (induction kvs arbitrary: acc)
  case Nil
  show ?case by (simp add: TrimSpace_fixed leadingSpace_Nil trailingSpace_Nil)
next
  case (Cons kv kvs)
  obtain p h where kv: "kv = (p, h)" by (cases kv)
  from Cons.prems kv have t: "isToken h" "isToken p" "\<not> HasPrefix h ''#''" "\<not> HasPrefix p ''*''"
      "\<not> HasPrefix p ''./''"
    by auto
  from Cons.prems have rest: "\<forall>(p, h) \<in> set kvs. isToken h \<and> isToken p \<and> \<not> HasPrefix h ''#''
       \<and> \<not> HasPrefix p ''*'' \<and> \<not> HasPrefix p ''./''"
    by simp
  have "map_of (parseLines (map (\<lambda>(p, h). entryLine h p) (kv # kvs) @ [[]]) acc)
      = map_of (parseLines (map (\<lambda>(p, h). entryLine h p) kvs @ [[]]) (AList.update p h acc))"
    unfolding kv by (simp only: list.map append_Cons prod.case parseLines_line [OF t])
  also have "\<dots> = (map_of acc)(p \<mapsto> h) ++ map_of (rev kvs)"
    unfolding Cons.IH [OF rest] by (simp add: update_conv')
  also have "\<dots> = map_of acc ++ map_of (rev (kv # kvs))"
    unfolding kv by (rule ext) (simp add: map_add_def split: option.splits)
  finally show ?case .
qed

lemma entryMap_SomeD:
  "entryMap entries p = Some h \<Longrightarrow> \<exists>e \<in> set entries. e_Path e = p \<and> e_Sum e = h"
  by (auto simp: entryMap_def dest!: map_of_SomeD)

lemma finite_dom_entryMap: "finite (dom (entryMap entries))"
  by (simp add: entryMap_def finite_dom_map_of)

lemma map_of_keys:
  "set keys = dom M \<Longrightarrow> map_of (map (\<lambda>p. (p, the (M p))) keys) = M"
proof (rule ext)
  fix k assume s: "set keys = dom M"
  show "map_of (map (\<lambda>p. (p, the (M p))) keys) k = M k"
  proof (cases "k \<in> set keys")
    case True
    then have "map_of (map (\<lambda>p. (p, the (M p))) keys) k = Some (the (M k))"
      by (induction keys) auto
    then show ?thesis using True s by auto
  next
    case False
    then have "map_of (map (\<lambda>p. (p, the (M p))) keys) k = None"
      by (simp add: map_of_eq_None_iff image_image)
    then show ?thesis using False s by auto
  qed
qed

lemma manifestText_lines:
  "finite (dom M) \<Longrightarrow>
   manifestText M
     = concat (map (\<lambda>l. l @ nl)
         (map (\<lambda>(p, h). entryLine h p)
            (map (\<lambda>p. (p, the (M p))) (sorted_list_of_set (dom M)))))"
  unfolding manifestText_def
  by (auto simp: entryLine_def comp_def intro!: arg_cong [where f = concat])

lemma roundTrips_wellFormed: "list_all roundTrips entries \<Longrightarrow> filter wellFormed entries = entries"
  by (auto simp: list_all_iff roundTrips_def isToken_def wellFormed_def filter_id_conv)

lemma parse_manifestText:
  assumes "list_all roundTrips entries"
  shows "map_of (parseLines (Split (manifestText (entryMap entries)) (CHR 0x0A)) [])
           = entryMap entries"
proof -
  let ?M = "entryMap entries"
  let ?keys = "sorted_list_of_set (dom ?M)"
  let ?kvs = "map (\<lambda>p. (p, the (?M p))) ?keys"
  let ?ls = "map (\<lambda>(p, h). entryLine h p) ?kvs"
  have fin: "finite (dom ?M)" by (rule finite_dom_entryMap)
  have keys: "set ?keys = dom ?M" "distinct ?keys" using fin by simp_all
  have good: "\<forall>(p, h) \<in> set ?kvs. isToken h \<and> isToken p \<and> \<not> HasPrefix h ''#''
       \<and> \<not> HasPrefix p ''*'' \<and> \<not> HasPrefix p ''./''"
  proof (clarsimp simp: keys(1))
    fix p h assume "?M p = Some h"
    then obtain e where "e \<in> set entries" "e_Path e = p" "e_Sum e = h"
      by (auto dest: entryMap_SomeD)
    with assms show "isToken h \<and> isToken p \<and> \<not> HasPrefix h ''#''
       \<and> \<not> HasPrefix p ''*'' \<and> \<not> HasPrefix p ''./''"
      by (auto simp: list_all_iff roundTrips_def)
  qed
  have nonl: "\<forall>l \<in> set ?ls. CHR 0x0A \<notin> set l"
  proof
    fix l assume "l \<in> set ?ls"
    then obtain p h where l: "l = entryLine h p" and ph: "(p, h) \<in> set ?kvs" by auto
    from good ph have "isToken h" "isToken p" by auto
    then have "CHR 0x0A \<notin> set h \<union> set p" by (auto simp: isToken_def dest: noSpace_nl)
    then show "CHR 0x0A \<notin> set l" by (simp add: l entryLine_def)
  qed
  have "Split (manifestText ?M) (CHR 0x0A) = ?ls @ [[]]"
    unfolding manifestText_lines [OF fin] by (rule Split_lines [OF nonl])
  then have "map_of (parseLines (Split (manifestText ?M) (CHR 0x0A)) []) = map_of (rev ?kvs)"
    using parseLines_lines [OF good, of "[]"] by simp
  also have "\<dots> = map_of ?kvs"
    by (rule map_of_rev_distinct) (simp add: comp_def keys(2))
  also have "\<dots> = ?M" by (rule map_of_keys [OF keys(1)])
  finally show ?thesis .
qed

text \<open>What the parser can return, and what it returns for lines of tokens.\<close>

lemma space_length:
  "s \<in> set space1 \<Longrightarrow> length s = 1"
  "s \<in> set space2 \<Longrightarrow> length s = 2"
  "s \<in> set space3 \<Longrightarrow> length s = 3"
  by (auto simp: space1_def space2_def space3_def)

lemma take_space_append:
  assumes "take k x \<in> S" "\<And>s. s \<in> S \<Longrightarrow> length s = k"
  shows "take k (x @ r) = take k x"
proof -
  have "length (take k x) = k" using assms by blast
  then have "k \<le> length x" by simp
  then show ?thesis by simp
qed

lemma leadingSpace_prefix: "leadingSpace (x @ r) = 0 \<Longrightarrow> leadingSpace x = 0"
proof (rule ccontr)
  assume z: "leadingSpace (x @ r) = 0" and n: "leadingSpace x \<noteq> 0"
  from z have a: "take 1 (x @ r) \<notin> set space1" "take 2 (x @ r) \<notin> set space2"
      "take 3 (x @ r) \<notin> set space3"
    by (auto simp: leadingSpace_def split: if_splits)
  from n consider "take 1 x \<in> set space1" | "take 2 x \<in> set space2" | "take 3 x \<in> set space3"
    by (auto simp: leadingSpace_def split: if_splits)
  then show False
  proof cases
    case 1
    have "take 1 (x @ r) = take 1 x" by (rule take_space_append [OF 1 space_length(1)])
    with 1 a(1) show False by (simp only: simp_thms)
  next
    case 2
    have "take 2 (x @ r) = take 2 x" by (rule take_space_append [OF 2 space_length(2)])
    with 2 a(2) show False by (simp only: simp_thms)
  next
    case 3
    have "take 3 (x @ r) = take 3 x" by (rule take_space_append [OF 3 space_length(3)])
    with 3 a(3) show False by (simp only: simp_thms)
  qed
qed

lemma noSpace_iff: "noSpace x \<longleftrightarrow> (\<forall>i < length x. leadingSpace (drop i x) = 0)"
proof (induction x)
  case Nil
  show ?case by simp
next
  case (Cons c cs)
  show ?case
  proof
    assume a: "noSpace (c # cs)"
    show "\<forall>i < length (c # cs). leadingSpace (drop i (c # cs)) = 0"
    proof (intro allI impI)
      fix i assume "i < length (c # cs)"
      then show "leadingSpace (drop i (c # cs)) = 0"
        using a Cons.IH by (cases i) auto
    qed
  next
    assume a: "\<forall>i < length (c # cs). leadingSpace (drop i (c # cs)) = 0"
    then have "leadingSpace (c # cs) = 0" by force
    moreover have "\<forall>i < length cs. leadingSpace (drop i cs) = 0"
    proof (intro allI impI)
      fix i assume "i < length cs"
      then show "leadingSpace (drop i cs) = 0" using a [rule_format, of "Suc i"] by simp
    qed
    ultimately show "noSpace (c # cs)" using Cons.IH by simp
  qed
qed

lemma clean_Nil: "clean [] s"
  by (simp add: clean_def)

lemma clean_noSpace: "clean cur s \<Longrightarrow> noSpace cur"
  unfolding clean_def noSpace_iff by (auto dest: leadingSpace_prefix)

lemma clean_snoc:
  assumes "clean cur (c # cs)" "leadingSpace (c # cs) = 0"
  shows "clean (cur @ [c]) cs"
  unfolding clean_def
proof (intro allI impI)
  fix i assume i: "i < length (cur @ [c])"
  show "leadingSpace (drop i (cur @ [c]) @ cs) = 0"
  proof (cases "i < length cur")
    case True
    then show ?thesis using assms(1) by (simp add: clean_def)
  next
    case False
    with i have "i = length cur" by simp
    then show ?thesis using assms(2) by simp
  qed
qed

lemma fieldsFrom_clean:
  "clean cur s \<Longrightarrow> \<forall>f \<in> set (fieldsFrom cur s). f \<noteq> [] \<and> noSpace f"
proof (induction cur s rule: fieldsFrom.induct)
  case (1 cur)
  then show ?case by (simp add: clean_noSpace)
next
  case (2 cur c cs)
  let ?rest = "drop (leadingSpace (c # cs)) (c # cs)"
  show ?case
  proof (cases "leadingSpace (c # cs) = 0")
    case True
    have "\<forall>f \<in> set (fieldsFrom (cur @ [c]) cs). f \<noteq> [] \<and> noSpace f"
      by (rule "2.IH"(1) [OF True clean_snoc [OF "2.prems" True]])
    moreover have "fieldsFrom cur (c # cs) = fieldsFrom (cur @ [c]) cs"
      using True by simp
    ultimately show ?thesis by (simp only:)
  next
    case False
    show ?thesis
    proof (cases "cur = []")
      case True
      have "\<forall>f \<in> set (fieldsFrom [] ?rest). f \<noteq> [] \<and> noSpace f"
        by (rule "2.IH"(2) [OF False True clean_Nil])
      moreover have "fieldsFrom cur (c # cs) = fieldsFrom [] ?rest"
        using False True by simp
      ultimately show ?thesis by (simp only:)
    next
      case ne: False
      have "\<forall>f \<in> set (fieldsFrom [] ?rest). f \<noteq> [] \<and> noSpace f"
        by (rule "2.IH"(3) [OF False ne clean_Nil])
      moreover have "noSpace cur" by (rule clean_noSpace [OF "2.prems"])
      ultimately have "\<forall>f \<in> set (cur # fieldsFrom [] ?rest). f \<noteq> [] \<and> noSpace f"
        using ne by simp
      moreover have "fieldsFrom cur (c # cs) = cur # fieldsFrom [] ?rest"
        using False ne by simp
      ultimately show ?thesis by (simp only:)
    qed
  qed
qed

lemma Fields_tokens: "\<forall>f \<in> set (Fields s). f \<noteq> [] \<and> noSpace f"
  unfolding Fields_def by (rule fieldsFrom_clean [OF clean_Nil])

lemma fieldsFrom_first:
  "cur \<noteq> [] \<Longrightarrow> \<exists>f fs. fieldsFrom cur s = f # fs \<and> hd f = hd cur"
  by (induction cur s rule: fieldsFrom.induct) auto

lemma leadingSpace_trimLeft: "leadingSpace (trimLeft s) = 0"
proof (induction s rule: trimLeft.induct)
  case (1 s)
  show ?case
  proof (cases "leadingSpace s = 0")
    case True
    then show ?thesis by (subst trimLeft.simps) simp
  next
    case False
    then show ?thesis using 1 by (subst trimLeft.simps) simp
  qed
qed

lemma leadingSpace_take: "leadingSpace s = 0 \<Longrightarrow> leadingSpace (take n s) = 0"
  using leadingSpace_prefix [of "take n s" "drop n s"] by simp

lemma leadingSpace_trimRight: "leadingSpace s = 0 \<Longrightarrow> leadingSpace (trimRight s) = 0"
proof (induction s rule: trimRight.induct)
  case (1 s)
  show ?case
  proof (cases "trailingSpace s = 0")
    case True
    then show ?thesis using "1.prems" by (subst trimRight.simps) simp
  next
    case False
    have "leadingSpace (trimRight (take (length s - trailingSpace s) s)) = 0"
      by (rule "1.IH" [OF False leadingSpace_take [OF "1.prems"]])
    then show ?thesis using False by (subst trimRight.simps) simp
  qed
qed

lemma leadingSpace_TrimSpace: "leadingSpace (TrimSpace s) = 0"
  by (simp add: TrimSpace_def leadingSpace_trimRight leadingSpace_trimLeft)

lemma Fields_first:
  assumes "leadingSpace t = 0" "t \<noteq> []"
  shows "\<exists>f fs. Fields t = f # fs \<and> hd f = hd t"
proof -
  obtain c cs where t: "t = c # cs" using assms(2) by (cases t) auto
  have "Fields t = fieldsFrom [c] cs"
    using assms(1) by (simp add: Fields_def t)
  then show ?thesis using fieldsFrom_first [of "[c]" cs] by (simp add: t)
qed

lemma HasPrefix_hash: "HasPrefix s ''#'' \<longleftrightarrow> s \<noteq> [] \<and> hd s = CHR ''#''"
  by (cases s) (auto simp: HasPrefix_def)

lemma noSpace_TrimPrefix: "noSpace s \<Longrightarrow> noSpace (TrimPrefix s p)"
  by (simp add: TrimPrefix_def noSpace_drop)

lemma parseLines_parsed:
  "\<forall>k v. map_of acc k = Some v \<longrightarrow> parsedPair k v \<Longrightarrow>
   \<forall>k v. map_of (parseLines ls acc) k = Some v \<longrightarrow> parsedPair k v"
proof (induction ls arbitrary: acc)
  case Nil
  then show ?case by simp
next
  case (Cons line rest)
  let ?t = "TrimSpace line"
  let ?parts = "Fields ?t"
  let ?name = "manifestKey (?parts ! 1)"
  show ?case
  proof (cases "?t = [] \<or> HasPrefix ?t ''#'' \<or> length ?parts < 2 \<or> ?name = []")
    case True
    then have "parseLines (line # rest) acc = parseLines rest acc"
      by (auto simp: Let_def manifestKey_def)
    then show ?thesis using Cons.IH [OF Cons.prems] by simp
  next
    case False
    then have p: "parseLines (line # rest) acc
        = parseLines rest (AList.update ?name (?parts ! 0) acc)"
      by (auto simp: Let_def manifestKey_def)
    from False have t: "?t \<noteq> []" "hd ?t \<noteq> CHR ''#''" and len: "2 \<le> length ?parts"
      and nm: "?name \<noteq> []"
      by (auto simp: HasPrefix_hash)
    obtain f fs where f: "?parts = f # fs" "hd f = hd ?t"
      using Fields_first [OF leadingSpace_TrimSpace t(1)] by blast
    have tok: "\<forall>f \<in> set ?parts. f \<noteq> [] \<and> noSpace f" by (rule Fields_tokens)
    have l0: "0 < length ?parts" and l1: "1 < length ?parts" using len by arith+
    have "?parts ! 0 \<in> set ?parts" by (rule nth_mem [OF l0])
    moreover have "?parts ! 1 \<in> set ?parts" by (rule nth_mem [OF l1])
    ultimately have h: "?parts ! 0 \<noteq> []" "noSpace (?parts ! 0)" and n: "noSpace (?parts ! 1)"
      using tok by blast+
    have "\<not> HasPrefix (?parts ! 0) ''#''"
      using f t(2) by (simp add: HasPrefix_hash)
    with h n nm have "parsedPair ?name (?parts ! 0)"
      by (simp add: parsedPair_def isToken_def manifestKey_def noSpace_TrimPrefix)
    then have "\<forall>k v. map_of (AList.update ?name (?parts ! 0) acc) k = Some v \<longrightarrow> parsedPair k v"
      using Cons.prems by (simp add: update_conv')
    then show ?thesis unfolding p by (rule Cons.IH)
  qed
qed

lemma parseLines_token_line:
  assumes "isToken h" "isToken p" "\<not> HasPrefix h ''#''"
  shows "parseLines (entryLine h p # rest) acc
           = (if manifestKey p \<noteq> [] then parseLines rest (AList.update (manifestKey p) h acc)
              else parseLines rest acc)"
proof -
  have ne: "h \<noteq> []" "p \<noteq> []" using assms by (auto simp: isToken_def)
  have hp: "\<not> HasPrefix (entryLine h p) ''#''"
    using assms(3) ne by (cases h) (auto simp: HasPrefix_def entryLine_def)
  have l: "entryLine h p \<noteq> []" using ne by (simp add: entryLine_def)
  show ?thesis
    unfolding parseLines.simps Let_def TrimSpace_line [OF assms(1,2)] Fields_line [OF assms(1,2)]
    using ne hp l by (simp add: manifestKey_def)
qed

lemma parseLines_token_lines_dom:
  "\<forall>(p, h) \<in> set kvs. isToken h \<and> isToken p \<and> \<not> HasPrefix h ''#'' \<Longrightarrow>
   dom (map_of (parseLines (map (\<lambda>(p, h). entryLine h p) kvs @ [[]]) acc))
     \<subseteq> dom (map_of acc) \<union> manifestKey ` fst ` set kvs"
proof (induction kvs arbitrary: acc)
  case Nil
  show ?case by (simp add: TrimSpace_fixed leadingSpace_Nil trailingSpace_Nil)
next
  case (Cons kv kvs)
  obtain p h where kv: "kv = (p, h)" by (cases kv)
  from Cons.prems kv have t: "isToken h" "isToken p" "\<not> HasPrefix h ''#''" by auto
  from Cons.prems have rest: "\<forall>(p, h) \<in> set kvs. isToken h \<and> isToken p \<and> \<not> HasPrefix h ''#''"
    by simp
  let ?ls = "map (\<lambda>(p, h). entryLine h p) kvs @ [[]]"
  have step: "parseLines (map (\<lambda>(p, h). entryLine h p) (kv # kvs) @ [[]]) acc
      = (if manifestKey p \<noteq> [] then parseLines ?ls (AList.update (manifestKey p) h acc)
         else parseLines ?ls acc)"
    unfolding kv by (simp only: list.map append_Cons prod.case parseLines_token_line [OF t])
  show ?case
  proof (cases "manifestKey p \<noteq> []")
    case True
    have "dom (map_of (parseLines ?ls (AList.update (manifestKey p) h acc)))
        \<subseteq> dom (map_of (AList.update (manifestKey p) h acc)) \<union> manifestKey ` fst ` set kvs"
      by (rule Cons.IH [OF rest])
    then show ?thesis unfolding step using True by (auto simp: update_conv' kv)
  next
    case False
    have "dom (map_of (parseLines ?ls acc)) \<subseteq> dom (map_of acc) \<union> manifestKey ` fst ` set kvs"
      by (rule Cons.IH [OF rest])
    then show ?thesis unfolding step using False by (auto simp: kv)
  qed
qed

lemma manifestKey_length: "length (manifestKey p) \<le> length p"
  by (simp add: manifestKey_def TrimPrefix_def)

lemma manifestKey_shorter:
  "HasPrefix p ''*'' \<or> HasPrefix p ''./'' \<Longrightarrow> length (manifestKey p) < length p"
  by (cases p; cases "tl p") (auto simp: manifestKey_def TrimPrefix_def HasPrefix_def)

lemma no_shrinking_cover:
  fixes n :: "string \<Rightarrow> string"
  assumes "finite K" "K \<subseteq> n ` K" "\<And>k. length (n k) \<le> length k"
    and "k0 \<in> K" "length (n k0) < length k0"
  shows False
proof -
  have "sum length K \<le> sum length (n ` K)"
    using assms(1,2) by (intro sum_mono2) auto
  also have "\<dots> \<le> sum (length \<circ> n) K"
    using assms(1) by (intro sum_image_le) auto
  also have "\<dots> < sum length K"
    using assms by (intro sum_strict_mono_ex1) auto
  finally show False by simp
qed

lemma dom_entryMap: "dom (entryMap entries) = e_Path ` set entries"
  by (simp add: entryMap_def dom_map_of_conv_image_fst image_image)

lemma parse_manifestText_only_if:
  assumes d: "distinct (map e_Path entries)"
    and eq: "map_of (parseLines (Split (manifestText (entryMap (filter wellFormed entries)))
                        (CHR 0x0A)) [])
               = map_of (map (\<lambda>e. (e_Path e, e_Sum e)) entries)"
  shows "list_all roundTrips entries"
proof -
  let ?m = "parseLines (Split (manifestText (entryMap (filter wellFormed entries))) (CHR 0x0A)) []"
  let ?K = "e_Path ` set entries"
  have parsed: "\<forall>k v. map_of ?m k = Some v \<longrightarrow> parsedPair k v"
    by (rule parseLines_parsed) simp
  have tok: "parsedPair (e_Path e) (e_Sum e)" if "e \<in> set entries" for e
  proof -
    have "map_of (map (\<lambda>e. (e_Path e, e_Sum e)) entries) (e_Path e) = Some (e_Sum e)"
      using d that by (intro map_of_is_SomeI) (auto simp: comp_def)
    then show ?thesis using parsed eq by simp
  qed
  then have wf: "filter wellFormed entries = entries"
    by (auto simp: filter_id_conv wellFormed_def parsedPair_def isToken_def)
  let ?M = "entryMap entries"
  let ?keys = "sorted_list_of_set (dom ?M)"
  let ?kvs = "map (\<lambda>p. (p, the (?M p))) ?keys"
  let ?ls = "map (\<lambda>(p, h). entryLine h p) ?kvs"
  have fin: "finite (dom ?M)" by (rule finite_dom_entryMap)
  have keys: "set ?keys = dom ?M" using fin by simp
  have good: "\<forall>(p, h) \<in> set ?kvs. isToken h \<and> isToken p \<and> \<not> HasPrefix h ''#''"
  proof (clarsimp simp: keys)
    fix p h assume "?M p = Some h"
    then obtain e where "e \<in> set entries" "e_Path e = p" "e_Sum e = h"
      by (auto dest: entryMap_SomeD)
    with tok [of e] show "isToken h \<and> isToken p \<and> \<not> HasPrefix h ''#''"
      by (auto simp: parsedPair_def)
  qed
  have nonl: "\<forall>l \<in> set ?ls. CHR 0x0A \<notin> set l"
  proof
    fix l assume "l \<in> set ?ls"
    then obtain p h where l: "l = entryLine h p" and ph: "(p, h) \<in> set ?kvs" by auto
    from good ph have "isToken h" "isToken p" by auto
    then have "CHR 0x0A \<notin> set h \<union> set p" by (auto simp: isToken_def dest: noSpace_nl)
    then show "CHR 0x0A \<notin> set l" by (simp add: l entryLine_def)
  qed
  have "Split (manifestText ?M) (CHR 0x0A) = ?ls @ [[]]"
    unfolding manifestText_lines [OF fin] by (rule Split_lines [OF nonl])
  then have "dom (map_of ?m) \<subseteq> manifestKey ` fst ` set ?kvs"
    using parseLines_token_lines_dom [OF good, of "[]"] by (simp add: wf)
  also have "fst ` set ?kvs = ?K"
    by (simp add: image_image keys dom_entryMap)
  finally have sub: "dom (map_of ?m) \<subseteq> manifestKey ` ?K" .
  have "dom (map_of ?m) = ?K"
    unfolding eq by (simp add: dom_map_of_conv_image_fst image_image)
  with sub have cover: "?K \<subseteq> manifestKey ` ?K" by simp
  have "roundTrips e" if e: "e \<in> set entries" for e
  proof -
    have "\<not> (HasPrefix (e_Path e) ''*'' \<or> HasPrefix (e_Path e) ''./'')"
    proof
      assume "HasPrefix (e_Path e) ''*'' \<or> HasPrefix (e_Path e) ''./''"
      then have "length (manifestKey (e_Path e)) < length (e_Path e)"
        by (rule manifestKey_shorter)
      moreover have "e_Path e \<in> ?K" using e by simp
      ultimately show False
        using no_shrinking_cover [of ?K manifestKey "e_Path e"] cover manifestKey_length
        by blast
    qed
    with tok [OF e] show ?thesis by (simp add: roundTrips_def parsedPair_def)
  qed
  then show ?thesis by (simp add: list_all_iff)
qed

text \<open>
  Claim C4, as the code has it. Reading a manifest back gives the entries that were
  written exactly when every path and digest is one field of a line. For a non-empty
  list of entries with unique paths, written without append to a path that can be
  written and is readable afterwards, \<open>parseSHA256Manifest\<close> returns the input entries
  as a map from path to digest if and only if each path and digest is a non-empty
  string, of any bytes, with no white space in it (white space as \<open>unicode.IsSpace\<close>
  has it), no digest starts with \<open>#\<close> and no path starts with \<open>*\<close> or \<open>./\<close>. For any
  other list it does not: a path with a blank or a no-break space is cut there, a path
  that starts with \<open>*\<close> or \<open>./\<close> comes back without it, and a line whose digest starts
  with \<open>#\<close> is read as a comment.
\<close>

theorem manifest_round_trip:
  "entries \<noteq> [] \<Longrightarrow> distinct (map e_Path entries) \<Longrightarrow>
   canWrite fs path \<Longrightarrow> readableAfterWrite fs path \<Longrightarrow>
   (\<exists>fs' m. writeSHA256Manifest fs path entries False = Inr fs' \<and>
            parseSHA256Manifest fs' path = Inr m \<and>
            map_of m = map_of (map (\<lambda>e. (e_Path e, e_Sum e)) entries))
     = list_all roundTrips entries"
proof -
  assume ne: "entries \<noteq> []" and d: "distinct (map e_Path entries)"
    and cw: "canWrite fs path" and ra: "readableAfterWrite fs path"
  let ?text = "manifestText (entryMap (filter wellFormed entries))"
  let ?fs' = "fs\<lparr>files := (files fs)(path \<mapsto> File ?text True True)\<rparr>"
  let ?m = "parseLines (Split ?text (CHR 0x0A)) []"
  have w: "writeSHA256Manifest fs path entries False = Inr ?fs'"
    using ra by (auto simp: writeSHA256Manifest_text [OF ne] WriteFile_canWrite [OF cw]
        readableAfterWrite_def split: option.splits)
  have p: "parseSHA256Manifest ?fs' path = Inr ?m"
    by (simp add: parseSHA256Manifest_def ReadFile_def)
  show ?thesis
  proof
    assume "\<exists>fs' m. writeSHA256Manifest fs path entries False = Inr fs' \<and>
            parseSHA256Manifest fs' path = Inr m \<and>
            map_of m = map_of (map (\<lambda>e. (e_Path e, e_Sum e)) entries)"
    then have "map_of ?m = map_of (map (\<lambda>e. (e_Path e, e_Sum e)) entries)"
      unfolding w using p by auto
    then show "list_all roundTrips entries"
      by (rule parse_manifestText_only_if [OF d])
  next
    assume rt: "list_all roundTrips entries"
    have wf: "filter wellFormed entries = entries" by (rule roundTrips_wellFormed [OF rt])
    have "map_of ?m = entryMap entries"
      unfolding wf by (rule parse_manifestText [OF rt])
    also have "\<dots> = map_of (map (\<lambda>e. (e_Path e, e_Sum e)) entries)"
      unfolding entryMap_def by (rule map_of_rev_distinct) (simp add: comp_def d)
    finally show "\<exists>fs' m. writeSHA256Manifest fs path entries False = Inr fs' \<and>
            parseSHA256Manifest fs' path = Inr m \<and>
            map_of m = map_of (map (\<lambda>e. (e_Path e, e_Sum e)) entries)"
      using w p by blast
  qed
qed

theorem manifest_round_trip_witness:
  "[\<lparr>e_Path = ''b/x.svg'', e_Sum = ''ff''\<rparr>,
    \<lparr>e_Path = [CHR 0xC3, CHR 0xA9] @ ''.svg'', e_Sum = ''01''\<rparr>] \<noteq> [] \<and>
   distinct (map e_Path
     [\<lparr>e_Path = ''b/x.svg'', e_Sum = ''ff''\<rparr>,
      \<lparr>e_Path = [CHR 0xC3, CHR 0xA9] @ ''.svg'', e_Sum = ''01''\<rparr>]) \<and>
   canWrite emptyDisk ''m'' \<and> readableAfterWrite emptyDisk ''m'' \<and>
   list_all roundTrips
     [\<lparr>e_Path = ''b/x.svg'', e_Sum = ''ff''\<rparr>,
      \<lparr>e_Path = [CHR 0xC3, CHR 0xA9] @ ''.svg'', e_Sum = ''01''\<rparr>] \<and>
   (\<exists>fs' m. writeSHA256Manifest emptyDisk ''m''
               [\<lparr>e_Path = ''b/x.svg'', e_Sum = ''ff''\<rparr>,
                \<lparr>e_Path = [CHR 0xC3, CHR 0xA9] @ ''.svg'', e_Sum = ''01''\<rparr>]
               False = Inr fs' \<and>
            parseSHA256Manifest fs' ''m'' = Inr m \<and>
            map_of m = [[CHR 0xC3, CHR 0xA9] @ ''.svg'' \<mapsto> ''01'', ''b/x.svg'' \<mapsto> ''ff'']) \<and>
   \<not> list_all roundTrips [\<lparr>e_Path = ''./a'', e_Sum = ''ff''\<rparr>] \<and>
   \<not> (\<exists>fs' m. writeSHA256Manifest emptyDisk ''m'' [\<lparr>e_Path = ''./a'', e_Sum = ''ff''\<rparr>] False
                 = Inr fs' \<and>
              parseSHA256Manifest fs' ''m'' = Inr m \<and>
              map_of m = [''./a'' \<mapsto> ''ff''])"
proof -
  let ?es = "[\<lparr>e_Path = ''b/x.svg'', e_Sum = ''ff''\<rparr>,
              \<lparr>e_Path = [CHR 0xC3, CHR 0xA9] @ ''.svg'', e_Sum = ''01''\<rparr>]"
  let ?bad = "[\<lparr>e_Path = ''./a'', e_Sum = ''ff''\<rparr>]"
  have h1: "?es \<noteq> []" by simp
  have h2: "distinct (map e_Path ?es)" by simp
  have h3: "list_all roundTrips ?es"
    by (simp add: roundTrips_def isToken_def whitespace_simps HasPrefix_def)
  have h4: "canWrite emptyDisk ''m''" by (simp add: canWrite_def emptyDisk_def)
  have h5: "readableAfterWrite emptyDisk ''m''" by (simp add: readableAfterWrite_def emptyDisk_def)
  have g: "\<exists>fs' m. writeSHA256Manifest emptyDisk ''m'' ?es False = Inr fs' \<and>
            parseSHA256Manifest fs' ''m'' = Inr m \<and>
            map_of m = [[CHR 0xC3, CHR 0xA9] @ ''.svg'' \<mapsto> ''01'', ''b/x.svg'' \<mapsto> ''ff'']"
    using manifest_round_trip [OF h1 h2 h4 h5] h3 by simp
  have b1: "?bad \<noteq> []" by simp
  have b2: "distinct (map e_Path ?bad)" by simp
  have b3: "\<not> list_all roundTrips ?bad"
    by (simp add: roundTrips_def HasPrefix_def)
  have b: "\<not> (\<exists>fs' m. writeSHA256Manifest emptyDisk ''m'' ?bad False = Inr fs' \<and>
              parseSHA256Manifest fs' ''m'' = Inr m \<and>
              map_of m = [''./a'' \<mapsto> ''ff''])"
    using manifest_round_trip [OF b1 b2 h4 h5] b3 by simp
  from h1 h2 h3 h4 h5 g b3 b show ?thesis by blast
qed

theorem manifest_round_trip_counterexample:
  "writeSHA256Manifest emptyDisk ''m'' [\<lparr>e_Path = ''a b'', e_Sum = ''ff''\<rparr>] False
     = Inr (diskWith ''m'' (File (''ff  a b'' @ nl) True True)) \<and>
   parseSHA256Manifest (diskWith ''m'' (File (''ff  a b'' @ nl) True True)) ''m''
     = Inr [(''a'', ''ff'')] \<and>
   map_of [(''a'', ''ff'')] ''a b'' = None \<and>
   writeSHA256Manifest emptyDisk ''m''
       [\<lparr>e_Path = ''a'' @ [CHR 0xC2, CHR 0xA0] @ ''b'', e_Sum = ''ff''\<rparr>] False
     = Inr (diskWith ''m'' (File (''ff  a'' @ [CHR 0xC2, CHR 0xA0] @ ''b'' @ nl) True True)) \<and>
   parseSHA256Manifest
       (diskWith ''m'' (File (''ff  a'' @ [CHR 0xC2, CHR 0xA0] @ ''b'' @ nl) True True)) ''m''
     = Inr [(''a'', ''ff'')] \<and>
   writeSHA256Manifest emptyDisk ''m''
       [\<lparr>e_Path = ''*a'', e_Sum = ''ff''\<rparr>, \<lparr>e_Path = ''./b'', e_Sum = ''01''\<rparr>] False
     = Inr (diskWith ''m'' (File (''ff  *a'' @ nl @ ''01  ./b'' @ nl) True True)) \<and>
   parseSHA256Manifest (diskWith ''m'' (File (''ff  *a'' @ nl @ ''01  ./b'' @ nl) True True)) ''m''
     = Inr [(''a'', ''ff''), (''b'', ''01'')] \<and>
   writeSHA256Manifest emptyDisk ''m'' [\<lparr>e_Path = ''a'', e_Sum = ''#ff''\<rparr>] False
     = Inr (diskWith ''m'' (File (''#ff  a'' @ nl) True True)) \<and>
   parseSHA256Manifest (diskWith ''m'' (File (''#ff  a'' @ nl) True True)) ''m'' = Inr []"
  by (simp add: writeSHA256Manifest_def WriteFile_def emptyDisk_def diskWith_def manifestLine_def
        parseSHA256Manifest_def ReadFile_def Split_def TrimSpace_simps whitespace_simps HasPrefix_def
        Fields_def TrimPrefix_def)

lemma lookupKeys_manifestLookup:
  "lookupKeys m (manifestKeys E path root)
     = (case manifestLookup E path root m of
          None \<Rightarrow> ('''', False)
        | Some expected \<Rightarrow> (expected, True))"
  by (auto simp: manifestKeys_def manifestLookup_def relKey_def Let_def
      split: sum.splits option.splits)

lemma verifySHA256ManifestEntry_nil: "verifySHA256ManifestEntry E fs path root None = None"
  by (simp add: verifySHA256ManifestEntry_def)

text \<open>
  Claim C6. For every file path, root directory and manifest map,
  \<open>verifySHA256ManifestEntry\<close> looks the file up by its path relative to the root first
  (when the root is not empty and the relative path exists and is neither empty nor
  \<open>.\<close>) and by its base name otherwise. With no matching key it fails with "no manifest
  entry for" the base name; with a key whose recorded digest differs from the computed
  one (compared without regard to case, the recorded one without the white space
  around it) it fails with
  "expected" and the recorded digest; the two errors are never equal. An error of
  reading the file is passed on; equal digests give no error.
\<close>

theorem verifySHA256ManifestEntry_lookup:
  "verifySHA256ManifestEntry E fs path root (Some m)
     = (case manifestLookup E path root m of
          None \<Rightarrow> Some (Errorf (''no manifest entry for '' @ filepath_Base E path))
        | Some expected \<Rightarrow>
            (case computeSHA256 E fs path of
               Inl err \<Rightarrow> Some err
             | Inr digest \<Rightarrow>
                 if EqualFold digest (TrimSpace expected) then None
                 else Some (Errorf (''expected '' @ expected)))) \<and>
   Errorf (''no manifest entry for '' @ filepath_Base E path) \<noteq> Errorf (''expected '' @ expected')"
  by (auto simp: verifySHA256ManifestEntry_def lookupKeys_manifestLookup verifySHA256_def Let_def
      split: option.splits sum.splits)

theorem verifySHA256ManifestEntry_lookup_witness:
  "verifySHA256ManifestEntry exampleEnv
       (diskWith ''/dl/stripe/logo-light.svg'' (File ''<svg/>'' True True))
       ''/dl/stripe/logo-light.svg'' ''/dl'' (Some [(''other.svg'', ''aa11'')])
     = Some (Errorf ''no manifest entry for logo-light.svg'') \<and>
   verifySHA256ManifestEntry exampleEnv
       (diskWith ''/dl/stripe/logo-light.svg'' (File ''<svg/>'' True True))
       ''/dl/stripe/logo-light.svg'' ''/dl''
       (Some [(''logo-light.svg'', ''bb22''), (''stripe/logo-light.svg'', ''cc33'')])
     = Some (Errorf ''expected cc33'') \<and>
   verifySHA256ManifestEntry exampleEnv
       (diskWith ''/dl/stripe/logo-light.svg'' (File ''<svg/>'' True True))
       ''/dl/stripe/logo-light.svg'' ''/dl'' (Some [(''logo-light.svg'', ''AA11 '')])
     = None \<and>
   verifySHA256ManifestEntry exampleEnv
       (diskWith ''/dl/stripe/logo-light.svg'' (File ''<svg/>'' True True))
       ''/dl/stripe/logo-light.svg'' ''/dl''
       (Some [(''logo-light.svg'', [CHR 0xE2, CHR 0x80, CHR 0x83] @ ''aa11'' @ [CHR 0xC2, CHR 0xA0])])
     = None"
proof -
  let ?d = "diskWith ''/dl/stripe/logo-light.svg'' (File ''<svg/>'' True True)"
  let ?p = "''/dl/stripe/logo-light.svg''"
  have b: "filepath_Base exampleEnv ?p = ''logo-light.svg''"
    by (simp add: exampleEnv_def Split_def)
  have r: "relKey exampleEnv ?p ''/dl'' = Some ''stripe/logo-light.svg''"
    by (simp add: relKey_def exampleEnv_def HasPrefix_def)
  have c: "computeSHA256 exampleEnv ?d ?p = Inr ''aa11''"
    by (simp add: computeSHA256_def ReadFile_def diskWith_def exampleEnv_def EncodeToString_def
          hextable_def)
  have "verifySHA256ManifestEntry exampleEnv ?d ?p ''/dl'' (Some [(''other.svg'', ''aa11'')])
      = Some (Errorf ''no manifest entry for logo-light.svg'')"
    using verifySHA256ManifestEntry_lookup [of exampleEnv ?d ?p "''/dl''" "[(''other.svg'', ''aa11'')]"]
    by (simp add: manifestLookup_def r b)
  moreover have "verifySHA256ManifestEntry exampleEnv ?d ?p ''/dl''
       (Some [(''logo-light.svg'', ''bb22''), (''stripe/logo-light.svg'', ''cc33'')])
      = Some (Errorf ''expected cc33'')"
    using verifySHA256ManifestEntry_lookup [of exampleEnv ?d ?p "''/dl''"
        "[(''logo-light.svg'', ''bb22''), (''stripe/logo-light.svg'', ''cc33'')]"]
    by (simp add: manifestLookup_def r b c EqualFold_def toLower_def TrimSpace_simps whitespace_simps)
  moreover have "verifySHA256ManifestEntry exampleEnv ?d ?p ''/dl''
       (Some [(''logo-light.svg'', ''AA11 '')]) = None"
    using verifySHA256ManifestEntry_lookup [of exampleEnv ?d ?p "''/dl''"
        "[(''logo-light.svg'', ''AA11 '')]"]
    by (simp add: manifestLookup_def r b c EqualFold_def toLower_def TrimSpace_simps whitespace_simps)
  moreover have "verifySHA256ManifestEntry exampleEnv ?d ?p ''/dl''
       (Some [(''logo-light.svg'', [CHR 0xE2, CHR 0x80, CHR 0x83] @ ''aa11'' @ [CHR 0xC2, CHR 0xA0])])
      = None"
    using verifySHA256ManifestEntry_lookup [of exampleEnv ?d ?p "''/dl''"
        "[(''logo-light.svg'', [CHR 0xE2, CHR 0x80, CHR 0x83] @ ''aa11'' @ [CHR 0xC2, CHR 0xA0])]"]
    by (simp add: manifestLookup_def r b c EqualFold_def toLower_def TrimSpace_simps whitespace_simps)
  ultimately show ?thesis by blast
qed

section \<open>Properties of the download orchestrator\<close>

lemma requests_append: "requests (xs @ ys) = requests xs @ requests ys"
  by (induction xs rule: requests.induct) auto

lemma requests_emit_Stderr [simp]: "requests (w_trace (emit (Stderr s) w)) = requests (w_trace w)"
  by (simp add: emit_def requests_append)

lemma requests_emit_MkdirAll [simp]: "requests (w_trace (emit (MkdirAll s) w)) = requests (w_trace w)"
  by (simp add: emit_def requests_append)

lemma requests_emit_HTTPGet [simp]:
  "requests (w_trace (emit (HTTPGet u) w)) = requests (w_trace w) @ [u]"
  by (simp add: emit_def requests_append)


lemma sidecarBlock_requests [simp]:
  "requests (w_trace (sidecarBlock E F filename destPath w)) = requests (w_trace w)"
  by (simp add: sidecarBlock_def split: sum.splits)



















section \<open>Properties of the quick command\<close>

lemma network_append: "network (xs @ ys) = network xs @ network ys"
  by (induction xs rule: network.induct) auto

lemma network_emit:
  "network (w_trace (emit ev w))
     = network (w_trace w) @ network [ev]"
  by (simp add: emit_def network_append)

lemma w_fs_emit [simp]: "w_fs (emit ev w) = w_fs w"
  by (simp add: emit_def)

lemma fetchBrands_network:
  "network (w_trace (fst (fetchBrands E args (w, results, errs))))
     = network (w_trace w) @ map GetBrand args \<and>
   w_fs (fst (fetchBrands E args (w, results, errs))) = w_fs w"
  by (induction args arbitrary: w results errs)
     (auto simp: Let_def network_emit split: sum.splits)

lemma fetchBrands_results:
  "fst (snd (fetchBrands E args (w, results, errs)))
     = results @ fst (snd (fetchBrands E args (w0, [], errs0)))"
proof (induction args arbitrary: w results errs w0 errs0)
  case Nil
  show ?case by simp
next
  case (Cons a args)
  show ?case
  proof (cases "client_GetBrand E a")
    case (Inl err)
    then show ?thesis using Cons.IH by (simp add: Let_def)
  next
    case (Inr brand)
    have "fst (snd (fetchBrands E (a # args) (w, results, errs)))
        = (results @ [convertBrandToQuickResult brand])
          @ fst (snd (fetchBrands E args (w0, [], errs0)))"
      using Inr Cons.IH [of _ "results @ [convertBrandToQuickResult brand]"] by (simp add: Let_def)
    moreover have "fst (snd (fetchBrands E (a # args) (w0, [], errs0)))
        = [convertBrandToQuickResult brand] @ fst (snd (fetchBrands E args (w0, [], errs0)))"
      using Inr Cons.IH [of _ "[convertBrandToQuickResult brand]"] by (simp add: Let_def)
    ultimately show ?thesis by simp
  qed
qed

lemma mkdirs_append: "mkdirs (xs @ ys) = mkdirs xs @ mkdirs ys"
  by (induction xs rule: mkdirs.induct) auto

lemma mkdirs_emit: "mkdirs (w_trace (emit ev w)) = mkdirs (w_trace w) @ mkdirs [ev]"
  by (simp add: emit_def mkdirs_append)

lemma fetchBrands_mkdirs:
  "mkdirs (w_trace (fst (fetchBrands E args (w, results, errs)))) = mkdirs (w_trace w)"
  by (induction args arbitrary: w results errs)
     (auto simp: Let_def mkdirs_emit split: sum.splits)

lemma fetchBrands_trace:
  "fst (fetchBrands E args (w, results, errs)) = w\<lparr>w_trace := w_trace w @ fetchEvents E args\<rparr>"
  by (induction args arbitrary: w results errs)
     (auto simp: Let_def emit_def split: sum.splits)

lemma runQuickCmd_no_download:
  assumes nm: "\<not> mutuallyExclusive F" and nd: "downloadDir F = ''''"
  shows "network (w_trace (snd (runQuickCmd E F w args)))
           = network (w_trace w) @ map GetBrand args"
    and "w_fs (snd (runQuickCmd E F w args)) = w_fs w"
    and "mkdirs (w_trace (snd (runQuickCmd E F w args))) = mkdirs (w_trace w)"
    and "fetched E args \<noteq> [] \<Longrightarrow> resolveOutput E F = Inr x \<Longrightarrow>
           fst (runQuickCmd E F w args) = manifestFlagError F"
    and "fetched E args \<noteq> [] \<Longrightarrow> resolveOutput E F = Inr x \<Longrightarrow>
           snd (runQuickCmd E F w args)
             = w\<lparr>w_trace := w_trace w @ fetchEvents E args
                     @ [Stdout (exportText E F (fetched E args) x @ nl)]\<rparr>"
proof -
  obtain w1 rs es where f: "fetchBrands E args (w, [], []) = (w1, rs, es)"
    by (cases "fetchBrands E args (w, [], [])")
  have n1: "network (w_trace w1) = network (w_trace w) @ map GetBrand args"
    and fs1: "w_fs w1 = w_fs w"
    using fetchBrands_network [of E args w "[]" "[]"] f by simp_all
  have md1: "mkdirs (w_trace w1) = mkdirs (w_trace w)"
    using fetchBrands_mkdirs [of E args w "[]" "[]"] f by simp
  have rs: "rs = fetched E args"
    using fetchBrands_results [of E args w "[]" "[]" "\<lparr>w_fs = emptyDisk, w_trace = []\<rparr>" "[]"] f
    by (simp add: fetched_def)
  have m: "\<not> (cssOutput F \<and> outputFormat F = ''json'')"
    "\<not> (tailwindOutput F \<and> outputFormat F = ''json'')" "\<not> (tailwindOutput F \<and> cssOutput F)"
    using nm by (auto simp: mutuallyExclusive_def)
  have run: "runQuickCmd E F w args =
      (if length rs = 0
       then (Some (Errorf (''failed to fetch all domains: '' @ Join es ''; '')), w1)
       else (case resolveOutput E F of
               Inl err \<Rightarrow> (Some err, w1)
             | Inr (format, colorize) \<Rightarrow>
                 (manifestFlagError F,
                  emit (Stdout
                     ((if cssOutput F then FormatQuickCSSBatch rs
                       else if tailwindOutput F then FormatQuickTailwindBatch rs
                       else output_FormatQuickBatch E rs format colorize) @ nl)) w1)))"
    apply (simp only: runQuickCmd_def m if_False)
    apply (simp add: f nd manifestFlagError_def split: sum.splits prod.splits)
    done
  show "network (w_trace (snd (runQuickCmd E F w args)))
           = network (w_trace w) @ map GetBrand args"
    unfolding run using n1 by (simp add: network_emit split: sum.splits prod.splits)
  show "w_fs (snd (runQuickCmd E F w args)) = w_fs w"
    unfolding run using fs1 by (simp split: sum.splits prod.splits)
  show "mkdirs (w_trace (snd (runQuickCmd E F w args))) = mkdirs (w_trace w)"
    unfolding run by (simp add: mkdirs_emit md1 split: sum.splits prod.splits)
  show "fst (runQuickCmd E F w args) = manifestFlagError F"
    if "fetched E args \<noteq> []" "resolveOutput E F = Inr x"
    unfolding run using that rs by (simp split: prod.splits)
  have w1: "w1 = w\<lparr>w_trace := w_trace w @ fetchEvents E args\<rparr>"
    using fetchBrands_trace [of E args w "[]" "[]"] f by simp
  show "snd (runQuickCmd E F w args)
          = w\<lparr>w_trace := w_trace w @ fetchEvents E args
                  @ [Stdout (exportText E F (fetched E args) x @ nl)]\<rparr>"
    if "fetched E args \<noteq> []" "resolveOutput E F = Inr x"
    unfolding run using that rs by (simp add: w1 emit_def exportText_def split: prod.splits)
qed

lemma runQuickCmd_mutexError:
  "mutuallyExclusive F \<Longrightarrow> runQuickCmd E F w args = (Some (mutexError F), w)"
  by (auto simp: mutuallyExclusive_def runQuickCmd_def mutexError_def)

text \<open>
  Claim C7, as the code has it. The three mutual-exclusion errors (\<open>--css\<close> with
  \<open>--output json\<close>, \<open>--tailwind\<close> with \<open>--output json\<close>, \<open>--tailwind\<close> with \<open>--css\<close>)
  are surfaced before anything else happens: the run returns the error and leaves the
  world as it was, with no request to the brand API, no output and no download. The
  errors of the manifest flags (\<open>--sha256-manifest\<close> and \<open>--sha256-manifest-out\<close>
  require \<open>--download\<close>, \<open>--sha256-manifest-append\<close> requires
  \<open>--sha256-manifest-out\<close>) are not: a run without a download directory that gets
  as far as its output checks them last. Such a run has by then requested every
  identifier from the brand API, reported each failed request on standard error and
  written the export text of the brands it got to standard output, and it has done
  exactly that: the error is returned after these events and no other, with no asset
  requested, no directory created and no file written. The claim's "before any network
  activity" fails for these errors: the brand fetch, which is network activity, comes
  first.
\<close>

theorem validation_before_download:
  "(mutuallyExclusive F \<longrightarrow> runQuickCmd E F w args = (Some (mutexError F), w)) \<and>
   (\<not> mutuallyExclusive F \<and> downloadDir F = '''' \<longrightarrow>
      network (w_trace (snd (runQuickCmd E F w args))) = network (w_trace w) @ map GetBrand args \<and>
      w_fs (snd (runQuickCmd E F w args)) = w_fs w \<and>
      mkdirs (w_trace (snd (runQuickCmd E F w args))) = mkdirs (w_trace w) \<and>
      (fetched E args \<noteq> [] \<and> resolveOutput E F = Inr x \<longrightarrow>
         fst (runQuickCmd E F w args) = manifestFlagError F \<and>
         snd (runQuickCmd E F w args)
           = w\<lparr>w_trace := w_trace w @ fetchEvents E args
                   @ [Stdout (exportText E F (fetched E args) x @ nl)]\<rparr>))"
proof (intro conjI impI)
  assume "mutuallyExclusive F"
  then show "runQuickCmd E F w args = (Some (mutexError F), w)"
    by (rule runQuickCmd_mutexError)
next
  assume a: "\<not> mutuallyExclusive F \<and> downloadDir F = ''''"
  then have nm: "\<not> mutuallyExclusive F" and nd: "downloadDir F = ''''" by simp_all
  show "network (w_trace (snd (runQuickCmd E F w args))) = network (w_trace w) @ map GetBrand args"
    by (rule runQuickCmd_no_download(1) [OF nm nd])
  show "w_fs (snd (runQuickCmd E F w args)) = w_fs w"
    by (rule runQuickCmd_no_download(2) [OF nm nd])
  show "mkdirs (w_trace (snd (runQuickCmd E F w args))) = mkdirs (w_trace w)"
    by (rule runQuickCmd_no_download(3) [OF nm nd])
  assume b: "fetched E args \<noteq> [] \<and> resolveOutput E F = Inr x"
  then show "fst (runQuickCmd E F w args) = manifestFlagError F"
    using runQuickCmd_no_download(4) [OF nm nd] by blast
  from b show "snd (runQuickCmd E F w args)
           = w\<lparr>w_trace := w_trace w @ fetchEvents E args
                   @ [Stdout (exportText E F (fetched E args) x @ nl)]\<rparr>"
    using runQuickCmd_no_download(5) [OF nm nd] by blast
qed

theorem validation_before_download_witness:
  "mutuallyExclusive (noFlags\<lparr>cssOutput := True, tailwindOutput := True\<rparr>) \<and>
   runQuickCmd exampleEnv (noFlags\<lparr>cssOutput := True, tailwindOutput := True\<rparr>) emptyWorld
       [''stripe.com'']
     = (Some (Errorf ''--tailwind and --css are mutually exclusive''), emptyWorld) \<and>
   \<not> mutuallyExclusive (noFlags\<lparr>quickSHA256ManifestOut := ''m.sha256''\<rparr>) \<and>
   downloadDir (noFlags\<lparr>quickSHA256ManifestOut := ''m.sha256''\<rparr>) = [] \<and>
   fetched exampleEnv [''stripe.com'', ''nosuch.com''] \<noteq> [] \<and>
   resolveOutput exampleEnv (noFlags\<lparr>quickSHA256ManifestOut := ''m.sha256''\<rparr>)
     = Inr (FormatText, False) \<and>
   network (w_trace (snd (runQuickCmd exampleEnv (noFlags\<lparr>quickSHA256ManifestOut := ''m.sha256''\<rparr>)
       emptyWorld [''stripe.com'', ''nosuch.com''])))
     = [GetBrand ''stripe.com'', GetBrand ''nosuch.com''] \<and>
   w_fs (snd (runQuickCmd exampleEnv (noFlags\<lparr>quickSHA256ManifestOut := ''m.sha256''\<rparr>)
       emptyWorld [''stripe.com'', ''nosuch.com''])) = emptyDisk \<and>
   mkdirs (w_trace (snd (runQuickCmd exampleEnv (noFlags\<lparr>quickSHA256ManifestOut := ''m.sha256''\<rparr>)
       emptyWorld [''stripe.com'', ''nosuch.com'']))) = [] \<and>
   runQuickCmd exampleEnv (noFlags\<lparr>quickSHA256ManifestOut := ''m.sha256''\<rparr>)
       emptyWorld [''stripe.com'', ''nosuch.com'']
     = (Some (Errorf ''--sha256-manifest-out requires --download''),
        \<lparr>w_fs = emptyDisk,
         w_trace = [GetBrand ''stripe.com'', GetBrand ''nosuch.com'',
                    Stderr (''Error fetching nosuch.com: not found'' @ nl),
                    Stdout (''stripe.com'' @ nl)]\<rparr>)"
proof -
  let ?X = "noFlags\<lparr>cssOutput := True, tailwindOutput := True\<rparr>"
  let ?F = "noFlags\<lparr>quickSHA256ManifestOut := ''m.sha256''\<rparr>"
  let ?args = "[''stripe.com'', ''nosuch.com'']"
  have x: "mutuallyExclusive ?X" by (simp add: mutuallyExclusive_def noFlags_def)
  have xe: "mutexError ?X = Errorf ''--tailwind and --css are mutually exclusive''"
    by (simp add: mutexError_def noFlags_def)
  have nm: "\<not> mutuallyExclusive ?F" by (simp add: mutuallyExclusive_def noFlags_def)
  have nd: "downloadDir ?F = []" by (simp add: noFlags_def)
  have f: "fetched exampleEnv ?args \<noteq> []"
    by (simp add: fetched_def exampleEnv_def Let_def)
  have r: "resolveOutput exampleEnv ?F = Inr (FormatText, False)"
    by (simp add: resolveOutput_def noFlags_def ParseFormat_def ParseColorMode_def ToLower_def isASCII_def toLower_def
          ResolveColorMode_def exampleEnv_def)
  have me: "manifestFlagError ?F = Some (Errorf ''--sha256-manifest-out requires --download'')"
    by (simp add: manifestFlagError_def noFlags_def)
  have a: "runQuickCmd exampleEnv ?X emptyWorld [''stripe.com'']
      = (Some (Errorf ''--tailwind and --css are mutually exclusive''), emptyWorld)"
    using validation_before_download [of ?X exampleEnv emptyWorld "[''stripe.com'']"] x xe
    by simp
  note b = validation_before_download
    [of ?F exampleEnv emptyWorld ?args "(FormatText, False)", THEN conjunct2, rule_format,
     OF conjI [OF nm nd]]
  have b1: "network (w_trace (snd (runQuickCmd exampleEnv ?F emptyWorld ?args)))
      = [GetBrand ''stripe.com'', GetBrand ''nosuch.com'']"
    using b [THEN conjunct1] by (simp add: emptyWorld_def)
  have b2: "w_fs (snd (runQuickCmd exampleEnv ?F emptyWorld ?args)) = emptyDisk"
    using b [THEN conjunct2, THEN conjunct1] by (simp add: emptyWorld_def)
  have b4: "mkdirs (w_trace (snd (runQuickCmd exampleEnv ?F emptyWorld ?args))) = []"
    using b [THEN conjunct2, THEN conjunct2, THEN conjunct1] by (simp add: emptyWorld_def)
  have fe: "fetchEvents exampleEnv ?args
      = [GetBrand ''stripe.com'', GetBrand ''nosuch.com'',
         Stderr (''Error fetching nosuch.com: not found'' @ nl)]"
    by (simp add: exampleEnv_def)
  have et: "exportText exampleEnv ?F (fetched exampleEnv ?args) (FormatText, False) = ''stripe.com''"
    by (simp add: exportText_def fetched_def exampleEnv_def noFlags_def Let_def
          convertBrandToQuickResult_def exampleBrand_def findLogos_def)
  have b3: "runQuickCmd exampleEnv ?F emptyWorld ?args
      = (Some (Errorf ''--sha256-manifest-out requires --download''),
         \<lparr>w_fs = emptyDisk,
          w_trace = [GetBrand ''stripe.com'', GetBrand ''nosuch.com'',
                     Stderr (''Error fetching nosuch.com: not found'' @ nl),
                     Stdout (''stripe.com'' @ nl)]\<rparr>)"
    using b [THEN conjunct2, THEN conjunct2, THEN conjunct2, rule_format, OF conjI [OF f r]] me
    unfolding fe et by (cases "runQuickCmd exampleEnv ?F emptyWorld ?args") (simp add: emptyWorld_def)
  from x a nm nd f r b1 b2 b3 b4 show ?thesis by blast
qed

theorem validation_after_fetch_counterexample:
  "runQuickCmd exampleEnv (noFlags\<lparr>quickSHA256ManifestAppend := True\<rparr>) emptyWorld [''stripe.com'']
     = (Some (Errorf ''--sha256-manifest-append requires --sha256-manifest-out''),
        \<lparr>w_fs = emptyDisk, w_trace = [GetBrand ''stripe.com'', Stdout (''stripe.com'' @ nl)]\<rparr>)"
  by (simp add: runQuickCmd_def noFlags_def emptyWorld_def emit_def Let_def exampleEnv_def
        resolveOutput_def ParseFormat_def ParseColorMode_def ToLower_def isASCII_def toLower_def ResolveColorMode_def
        convertBrandToQuickResult_def exampleBrand_def findLogos_def)

end
